theory Spec2Isabelle
  imports Main "HOL-Library.Word" "HOL-Library.Multiset"
begin

section \<open>Data model of the API loader\<close>

text \<open>
  The Go sources are \<^verbatim>\<open>src/unnamed/part_000\<close> (package gateway: the API loader).
  Go strings are byte sequences: \<^typ>\<open>string\<close>. Go's \<^verbatim>\<open>int\<close> is modelled by
  \<^typ>\<open>int\<close>; the 16-bit TLS version numbers are \<^typ>\<open>16 word\<close>.
\<close>

text \<open>\<^verbatim>\<open>net/url.URL\<close>: the fields the loader reads or writes.\<close>

record url =
  Scheme :: string
  Host :: string
  Path :: string
  RawQuery :: string

text \<open>
  \<^verbatim>\<open>APISpec\<close>: the descriptor. The nested structs \<^verbatim>\<open>spec.Proxy\<close> and
  \<^verbatim>\<open>spec.Proxy.Transport\<close> are flattened: \<open>ListenPath\<close> is
  \<^verbatim>\<open>spec.Proxy.ListenPath\<close>, \<open>SSLMaxVersion\<close> is
  \<^verbatim>\<open>spec.Proxy.Transport.SSLMaxVersion\<close> (a \<^verbatim>\<open>uint16\<close>), and so on.
  \<open>IdHex\<close> stands for \<^verbatim>\<open>api.Id.Hex()\<close>; \<open>Driver\<close> for
  \<^verbatim>\<open>spec.CustomMiddleware.Driver\<close>.
\<close>

datatype MiddlewareDriver = OttoDriver | GoPluginDriver | OtherDriver string

record APISpec =
  APIID :: string
  IdHex :: string
  Name :: string
  Protocol :: string
  Domain :: string
  ListenPath :: string
  TargetURL :: string
  target :: "url option"
  SSLMinVersion :: "16 word"
  SSLMaxVersion :: "16 word"
  TagHeaders :: "string list"
  Internal :: bool
  UseKeylessAccess :: bool
  UseStandardAuth :: bool
  UseOauth2 :: bool
  CustomPluginAuthEnabled :: bool
  UseGoPluginAuth :: bool
  EnableCoProcessAuth :: bool
  Driver :: MiddlewareDriver
  CustomMiddlewareBundleDisabled :: bool
  CustomMiddlewareBundle :: string
  GraphQLPlaygroundEnabled :: bool
  EnableBatchRequestSupport :: bool

text \<open>\<^verbatim>\<open>apidef.MiddlewareDefinition\<close>: one custom hook.\<close>

record MiddlewareDefinition =
  Disabled :: bool
  MwName :: string
  MwPath :: string
  RequireSession :: bool
  RawBodyOnly :: bool

text \<open>What \<^verbatim>\<open>gw.loadCustomMiddleware(spec)\<close> returns (the middleware paths are left out).\<close>

record customMiddleware =
  mwAuthCheckFunc :: MiddlewareDefinition
  mwPreFuncs :: "MiddlewareDefinition list"
  mwPostFuncs :: "MiddlewareDefinition list"
  mwPostAuthCheckFuncs :: "MiddlewareDefinition list"
  mwResponseFuncs :: "MiddlewareDefinition list"
  mwDriver :: MiddlewareDriver

subsection \<open>Middleware, handlers and the chain object\<close>

datatype HookType = HookType_Pre | HookType_Post | HookType_PostKeyAuth | HookType_CustomKeyCheck

text \<open>
  A middleware value of the chain. \<open>Std n\<close> is a middleware struct that holds nothing but
  the base middleware, named by its Go type; the others carry the fields the composer sets:
  \<open>RateLimitForAPI quotaKey\<close>, \<open>GoPluginMiddleware Path SymbolName APILevel\<close>,
  \<open>CoProcessMiddleware HookType HookName MiddlewareDriver RawBodyOnly\<close>,
  \<open>DynamicMiddleware MiddlewareClassName Pre UseSession Auth\<close>.
\<close>

datatype mw =
    Std string
  | RateLimitForAPI string
  | GoPluginMiddleware string string bool
  | CoProcessMiddleware HookType string MiddlewareDriver bool
  | DynamicMiddleware string bool bool bool

datatype terminal = DummyProxyHandler | userRatesCheck

text \<open>
  \<^verbatim>\<open>http.Handler\<close> values the loader builds: \<open>Chain ms t\<close> is
  \<^verbatim>\<open>alice.New(ms...).Then(t)\<close>; \<open>TraceHandle\<close> and \<open>OtelHTTPHandler\<close> are the tracing
  wrappers; \<open>ExplicitRouteHandler prefix handler\<close> is the struct
  \<^verbatim>\<open>explicitRouteHandler\<close>. A nil handler is \<open>None\<close>.
\<close>

datatype handler =
    Chain "mw list" terminal
  | TraceHandle string handler
  | OtelHTTPHandler string handler
  | ExplicitRouteHandler string "handler option"

record ChainObject =
  ThisHandler :: "handler option"
  RateLimitChain :: "handler option"
  Open :: bool
  Skip :: bool

text \<open>What \<^verbatim>\<open>apisHandlesByID\<close> (a \<^verbatim>\<open>sync.Map\<close> of untyped values) holds under a key.\<close>

datatype stored = StoredChain ChainObject | StoredOther

subsection \<open>Requests\<close>

text \<open>
  Modelled from the spec: the accessors of the request context (\<^verbatim>\<open>ctxLoopLevel\<close>,
  \<^verbatim>\<open>ctxLoopLevelLimit\<close>, \<^verbatim>\<open>ctxGetURLRewriteTarget\<close>, \<^verbatim>\<open>ctxSetURLRewriteTarget\<close>,
  \<^verbatim>\<open>ctxGetTransformRequestMethod\<close> and the others) are not among the sources. The
  specification's loop context is \<open>per-request counters: current loop depth, configured
  per-request limit, flags (self-looping, check-limits), saved original URL\<close>, and its
  \<open>pre-chain request context fields url_rewrite_target and transform_request_method\<close>:
  each is a field of the request, read and written as such.
\<close>

record request =
  URL :: url
  Method :: string
  ctxURLRewriteTarget :: "url option"
  ctxTransformRequestMethod :: string
  ctxLoopLevel :: int
  ctxLoopLevelLimit :: int
  ctxCheckLoopLimits :: bool
  ctxOrigRequestURL :: "url option"
  ctxSelfLooping :: bool
  ctxVersionInfo :: "string option"
  ctxInternalRedirectTarget :: "url option"

text \<open>Runtime panics of Go.\<close>

datatype fault = SliceBoundsOutOfRange | NilPointerDereference | TypeAssertionFailed

text \<open>
  Modelled from the spec: the accessor \<^verbatim>\<open>GetAPIDomain\<close> is not among the sources; the
  specification's data model gives a descriptor a \<open>domain (possibly empty)\<close>, and the
  collision key is \<open>hostname||listen_path\<close>.
\<close>

definition GetAPIDomain :: "APISpec \<Rightarrow> string" where
  "GetAPIDomain spec = Domain spec"

subsection \<open>Collision map\<close>

text \<open>
  \<^verbatim>\<open>map[string]int\<close>. Reading an absent key of a Go map yields the zero value.
\<close>

type_synonym listenCount = "string \<rightharpoonup> int"

definition mapIndex :: "listenCount \<Rightarrow> string \<Rightarrow> int" where
  "mapIndex m k = (case m k of None \<Rightarrow> 0 | Some n \<Rightarrow> n)"

definition generateDomainPath :: "string \<Rightarrow> string \<Rightarrow> string" where
  "generateDomainPath hostname listenPath = hostname @ listenPath"

text \<open>\<^verbatim>\<open>countApisByListenHash\<close> (the logging is left out).\<close>

fun countLoop :: "listenCount \<Rightarrow> APISpec list \<Rightarrow> listenCount" where
  "countLoop cnt [] = cnt"
| "countLoop cnt (spec # specs) =
     (let domain = GetAPIDomain spec;
          domainHash = generateDomainPath domain (ListenPath spec)
      in countLoop (cnt(domainHash \<mapsto> mapIndex cnt domainHash + 1)) specs)"

definition countApisByListenHash :: "APISpec list \<Rightarrow> listenCount" where
  "countApisByListenHash specs = countLoop Map.empty specs"

subsection \<open>TLS normalisation (processSpec, lines 165 to 171)\<close>

text \<open>\<^verbatim>\<open>tls.VersionTLS12\<close> of Go's \<^verbatim>\<open>crypto/tls\<close>.\<close>

definition VersionTLS12 :: "16 word" where
  "VersionTLS12 = 0x0303"

definition processSpec_tls :: "APISpec \<Rightarrow> APISpec" where
  "processSpec_tls spec =
     (let spec1 = (if SSLMaxVersion spec > 0
                   then spec\<lparr>SSLMaxVersion := VersionTLS12\<rparr> else spec)
      in if SSLMinVersion spec1 > SSLMaxVersion spec1
         then spec1\<lparr>SSLMaxVersion := SSLMinVersion spec1\<rparr> else spec1)"

subsection \<open>The gateway's collaborators\<close>

text \<open>
  Functions of the gateway and of Go's library that the sources call and do not contain
  are parameters, collected in one record:
  \<^item> \<open>kvStore\<close> is \<^verbatim>\<open>gw.kvStore\<close> (\<open>None\<close> when it returns an error), \<open>urlParse\<close> is
    \<^verbatim>\<open>net/url.Parse\<close> (\<open>None\<close> when it returns an error), \<open>ToLower\<close> is
    \<^verbatim>\<open>strings.ToLower\<close>, \<open>EqualFold\<close> is \<^verbatim>\<open>strings.EqualFold\<close>, \<open>filepathJoin\<close> is
    \<^verbatim>\<open>filepath.Join\<close>, \<open>pathJoin\<close> is \<^verbatim>\<open>path.Join\<close>, \<open>Atoi\<close> is \<^verbatim>\<open>strconv.Atoi\<close> (its
    number, which is 0 when it returns an error), \<open>queryGet u k\<close> is
    \<^verbatim>\<open>u.Query().Get(k)\<close>, \<open>Hostname\<close> is \<^verbatim>\<open>u.Hostname()\<close>;
  \<^item> \<open>getApiSpec\<close> is \<^verbatim>\<open>gw.getApiSpec\<close> (\<open>None\<close> for nil), \<open>apisByID\<close> lists the values of
    the map \<^verbatim>\<open>gw.apisByID\<close> in the order a \<^verbatim>\<open>range\<close> visits them, \<open>apisHandlesByID\<close> is
    the map of that name, \<open>shouldReloadSpec\<close>, \<open>ValidatePath\<close> (true when
    \<^verbatim>\<open>httputil.ValidatePath\<close> returns no error), \<open>replaceNonAlphaNumeric\<close>,
    \<open>ctxIncLoopLevel\<close>, \<open>getRedirectTargetUrl\<close> (\<open>None\<close> when it returns an error),
    \<open>SanitizeProxyPaths\<close>, \<open>getBundleDestPath\<close>, \<open>loadCustomMiddleware\<close>,
    \<open>getStreamingMiddleware\<close>, \<open>getUpstreamBasicAuthMw\<close>, \<open>getUpstreamOAuthMw\<close> are the
    functions of those names;
  \<^item> \<open>EnabledForSpec spec m\<close> is \<^verbatim>\<open>m.EnabledForSpec()\<close> of a middleware built on \<open>spec\<close>;
  \<^item> \<open>traceIsEnabled\<close> is \<^verbatim>\<open>trace.IsEnabled()\<close>, \<open>OpenTelemetryEnabled\<close> and
    \<open>EnableStrictRoutes\<close> are the options of the configuration.
\<close>

record gateway =
  kvStore :: "string \<Rightarrow> string option"
  urlParse :: "string \<Rightarrow> url option"
  ToLower :: "string \<Rightarrow> string"
  EqualFold :: "string \<Rightarrow> string \<Rightarrow> bool"
  filepathJoin :: "string \<Rightarrow> string \<Rightarrow> string"
  pathJoin :: "string \<Rightarrow> string \<Rightarrow> string"
  Atoi :: "string \<Rightarrow> int"
  queryGet :: "url \<Rightarrow> string \<Rightarrow> string"
  Hostname :: "url \<Rightarrow> string"
  getApiSpec :: "string \<Rightarrow> APISpec option"
  apisByID :: "APISpec list"
  apisHandlesByID :: "string \<rightharpoonup> stored"
  shouldReloadSpec :: "APISpec option \<Rightarrow> APISpec \<Rightarrow> bool"
  ValidatePath :: "string \<Rightarrow> bool"
  replaceNonAlphaNumeric :: "string \<Rightarrow> string"
  ctxIncLoopLevel :: "request \<Rightarrow> int \<Rightarrow> request"
  getRedirectTargetUrl :: "APISpec \<Rightarrow> url option \<Rightarrow> url option"
  SanitizeProxyPaths :: "APISpec \<Rightarrow> request \<Rightarrow> request"
  getBundleDestPath :: "APISpec \<Rightarrow> string"
  loadCustomMiddleware :: "APISpec \<Rightarrow> customMiddleware"
  getStreamingMiddleware :: "APISpec \<Rightarrow> mw option"
  getUpstreamBasicAuthMw :: "APISpec \<Rightarrow> mw option"
  getUpstreamOAuthMw :: "APISpec \<Rightarrow> mw option"
  EnabledForSpec :: "APISpec \<Rightarrow> mw \<Rightarrow> bool"
  traceIsEnabled :: bool
  OpenTelemetryEnabled :: bool
  EnableStrictRoutes :: bool

subsection \<open>Validator\<close>

text \<open>\<^verbatim>\<open>strings.Contains(s, " ")\<close>: the byte 0x20 occurs in \<open>s\<close>.\<close>

definition containsSpace :: "string \<Rightarrow> bool" where
  "containsSpace s = (CHR '' '' \<in> set s)"

definition httpFamily :: "string \<Rightarrow> bool" where
  "httpFamily protocol = (protocol = [] \<or> protocol = ''http'' \<or> protocol = ''https'')"

text \<open>
  \<^verbatim>\<open>skipSpecBecauseInvalid\<close>. The function writes the resolved target URL into the
  descriptor, so the model returns the descriptor too. The returns of the listen-path
  checks (the \<^verbatim>\<open>switch\<close> on the protocol) come before that write.
\<close>

definition skipSpecBecauseInvalid :: "gateway \<Rightarrow> APISpec \<Rightarrow> bool \<times> APISpec" where
  "skipSpecBecauseInvalid gw spec =
     (if httpFamily (Protocol spec) \<and> ListenPath spec = [] then (True, spec)
      else if httpFamily (Protocol spec) \<and> containsSpace (ListenPath spec) then (True, spec)
      else
        let spec1 = (case kvStore gw (TargetURL spec) of
                       Some val \<Rightarrow> spec\<lparr>TargetURL := val\<rparr>
                     | None \<Rightarrow> spec)
        in (case urlParse gw (TargetURL spec1) of
              None \<Rightarrow> (True, spec1)
            | Some u \<Rightarrow> (False, spec1)))"

subsection \<open>Listen-path arbitration (processSpec, lines 194 to 216)\<close>

text \<open>
  The \<^verbatim>\<open>for { ... }\<close> loop has no bound of its own, so it is a partial function: \<open>None\<close>
  is a loop that never leaves. Its state is the descriptor and the flag
  \<^verbatim>\<open>pathModified\<close>; it returns both.
\<close>

partial_function (option) processSpec_listenPath ::
  "gateway \<Rightarrow> listenCount \<Rightarrow> bool \<Rightarrow> APISpec \<Rightarrow> (APISpec \<times> bool) option" where
  "processSpec_listenPath gw apisByListen pathModified spec =
     (if mapIndex apisByListen (generateDomainPath (GetAPIDomain spec) (ListenPath spec)) < 2
      then Some (spec, pathModified)
      else if \<not> pathModified then
        (case getApiSpec gw (APIID spec) of
           None \<Rightarrow>
             processSpec_listenPath gw apisByListen True
               (spec\<lparr>ListenPath := ListenPath spec @ ''-'' @ APIID spec\<rparr>)
         | Some prev \<Rightarrow>
             if ListenPath prev = ListenPath spec then Some (spec, pathModified)
             else processSpec_listenPath gw apisByListen True
                    (spec\<lparr>ListenPath := ListenPath spec @ ''-'' @ APIID spec\<rparr>))
      else processSpec_listenPath gw apisByListen True
             (spec\<lparr>ListenPath := ListenPath spec @ ''_''\<rparr>))"

subsection \<open>Chain composer (processSpec, lines 221 to 533)\<close>

text \<open>\<^verbatim>\<open>gw.mwAppendEnabled\<close>: the middleware is appended when it is enabled for the spec.\<close>

definition mwAppendEnabled :: "gateway \<Rightarrow> APISpec \<Rightarrow> mw list \<Rightarrow> mw \<Rightarrow> mw list" where
  "mwAppendEnabled gw spec chain m = (if EnabledForSpec gw spec m then chain @ [m] else chain)"

text \<open>\<^verbatim>\<open>fixFuncPath\<close>.\<close>

definition fixFuncPath ::
  "gateway \<Rightarrow> string \<Rightarrow> MiddlewareDefinition list \<Rightarrow> MiddlewareDefinition list" where
  "fixFuncPath gw pathPrefix funcs =
     map (\<lambda>f. f\<lparr>MwPath := filepathJoin gw pathPrefix (MwPath f)\<rparr>) funcs"

text \<open>
  Lines 242 to 263: the hooks of the descriptor, with the paths of a bundle's native
  plugins rewritten.
\<close>

definition processSpec_customMiddleware :: "gateway \<Rightarrow> APISpec \<Rightarrow> customMiddleware" where
  "processSpec_customMiddleware gw spec =
     (let prefix = (if \<not> CustomMiddlewareBundleDisabled spec \<and> CustomMiddlewareBundle spec \<noteq> []
                    then getBundleDestPath gw spec else []);
          cm = loadCustomMiddleware gw spec
      in if mwDriver cm = GoPluginDriver \<and> prefix \<noteq> []
         then cm\<lparr>mwAuthCheckFunc :=
                    (mwAuthCheckFunc cm)\<lparr>MwPath := filepathJoin gw prefix (MwPath (mwAuthCheckFunc cm))\<rparr>,
                  mwPreFuncs := fixFuncPath gw prefix (mwPreFuncs cm),
                  mwPostFuncs := fixFuncPath gw prefix (mwPostFuncs cm),
                  mwPostAuthCheckFuncs := fixFuncPath gw prefix (mwPostAuthCheckFuncs cm),
                  mwResponseFuncs := fixFuncPath gw prefix (mwResponseFuncs cm)\<rparr>
         else cm)"

text \<open>The bodies of the three loops over the hooks (lines 305, 404 and 464).\<close>

definition preHook :: "gateway \<Rightarrow> APISpec \<Rightarrow> MiddlewareDriver \<Rightarrow> mw list \<Rightarrow> MiddlewareDefinition \<Rightarrow> mw list" where
  "preHook gw spec driver chainArray obj =
     (if driver = GoPluginDriver
      then mwAppendEnabled gw spec chainArray (GoPluginMiddleware (MwPath obj) (MwName obj) True)
      else if driver \<noteq> OttoDriver
      then mwAppendEnabled gw spec chainArray
             (CoProcessMiddleware HookType_Pre (MwName obj) driver (RawBodyOnly obj))
      else chainArray @ [DynamicMiddleware (MwName obj) True (RequireSession obj) False])"

definition postAuthHook :: "gateway \<Rightarrow> APISpec \<Rightarrow> MiddlewareDriver \<Rightarrow> mw list \<Rightarrow> MiddlewareDefinition \<Rightarrow> mw list" where
  "postAuthHook gw spec driver chainArray obj =
     (if driver = GoPluginDriver
      then mwAppendEnabled gw spec chainArray (GoPluginMiddleware (MwPath obj) (MwName obj) True)
      else mwAppendEnabled gw spec chainArray
             (CoProcessMiddleware HookType_PostKeyAuth (MwName obj) driver (RawBodyOnly obj)))"

definition postHook :: "gateway \<Rightarrow> APISpec \<Rightarrow> MiddlewareDriver \<Rightarrow> mw list \<Rightarrow> MiddlewareDefinition \<Rightarrow> mw list" where
  "postHook gw spec driver chainArray obj =
     (if driver = GoPluginDriver
      then mwAppendEnabled gw spec chainArray (GoPluginMiddleware (MwPath obj) (MwName obj) True)
      else if driver \<noteq> OttoDriver
      then mwAppendEnabled gw spec chainArray
             (CoProcessMiddleware HookType_Post (MwName obj) driver (RawBodyOnly obj))
      else chainArray @ [DynamicMiddleware (MwName obj) False (RequireSession obj) False])"

text \<open>Lines 335 to 392: the authentication sub-sequence \<^verbatim>\<open>authArray\<close>.\<close>

definition processSpec_authArray :: "gateway \<Rightarrow> APISpec \<Rightarrow> customMiddleware \<Rightarrow> mw list" where
  "processSpec_authArray gw spec cm =
     (let a0 = foldl (mwAppendEnabled gw spec) []
                 [Std ''Oauth2KeyExists'', Std ''ExternalOAuthMiddleware'',
                  Std ''BasicAuthKeyIsValid'', Std ''HTTPSignatureValidationMiddleware'',
                  Std ''JWTMiddleware'', Std ''OpenIDMW''];
          customPluginAuthEnabled =
            (CustomPluginAuthEnabled spec \<or> UseGoPluginAuth spec \<or> EnableCoProcessAuth spec);
          f = mwAuthCheckFunc cm;
          a1 = (if customPluginAuthEnabled \<and> \<not> Disabled f then
                  (case Driver spec of
                     OttoDriver \<Rightarrow> a0 @ [DynamicMiddleware (MwName f) True False True]
                   | GoPluginDriver \<Rightarrow>
                       mwAppendEnabled gw spec a0 (GoPluginMiddleware (MwPath f) (MwName f) True)
                   | OtherDriver d \<Rightarrow>
                       mwAppendEnabled gw spec a0
                         (CoProcessMiddleware HookType_CustomKeyCheck (MwName f) (mwDriver cm)
                            (RawBodyOnly f)))
                else a0)
      in if UseStandardAuth spec \<or> length a1 = 0 then a1 @ [Std ''AuthKey''] else a1)"

text \<open>Lines 302 to 482: the main sequence \<^verbatim>\<open>chainArray\<close>.\<close>

definition appendOpt :: "gateway \<Rightarrow> APISpec \<Rightarrow> mw list \<Rightarrow> mw option \<Rightarrow> mw list" where
  "appendOpt gw spec chain m = (case m of None \<Rightarrow> chain | Some x \<Rightarrow> mwAppendEnabled gw spec chain x)"

definition processSpec_chainArray ::
  "gateway \<Rightarrow> string \<Rightarrow> APISpec \<Rightarrow> customMiddleware \<Rightarrow> mw list \<Rightarrow> mw list" where
  "processSpec_chainArray gw quotaKey spec cm authArray =
     (let app = mwAppendEnabled gw spec;
          c1 = foldl app [] [Std ''VersionCheck'', Std ''CORSMiddleware''];
          c2 = foldl (preHook gw spec (mwDriver cm)) c1 (mwPreFuncs cm);
          c3 = foldl app c2
                 [Std ''RateCheckMW'', Std ''IPWhiteListMiddleware'', Std ''IPBlackListMiddleware'',
                  Std ''CertificateCheckMW'', Std ''OrganizationMonitor'',
                  Std ''RequestSizeLimitMiddleware'', Std ''MiddlewareContextVars'',
                  Std ''TrackEndpointMiddleware''];
          c4 = (if \<not> UseKeylessAccess spec then
                  foldl app
                    (foldl (postAuthHook gw spec (mwDriver cm)) (c3 @ authArray)
                       (mwPostAuthCheckFuncs cm))
                    [Std ''StripAuth'', Std ''KeyExpired'', Std ''AccessRightsCheck'',
                     Std ''GranularAccessMiddleware'', Std ''RateLimitAndQuotaCheck'']
                else c3);
          c5 = foldl app c4 [RateLimitForAPI quotaKey, Std ''GraphQLMiddleware''];
          c6 = appendOpt gw spec c5 (getStreamingMiddleware gw spec);
          c7 = (if \<not> UseKeylessAccess spec then
                  foldl app c6 [Std ''GraphQLComplexityMiddleware'',
                                Std ''GraphQLGranularAccessMiddleware'']
                else c6);
          c8 = appendOpt gw spec c7 (getUpstreamBasicAuthMw gw spec);
          c9 = appendOpt gw spec c8 (getUpstreamOAuthMw gw spec);
          c10 = foldl app c9
                  [Std ''ValidateJSON'', Std ''ValidateRequest'',
                   Std ''PersistGraphQLOperationMiddleware'', Std ''TransformMiddleware'',
                   Std ''TransformJQMiddleware'', Std ''TransformHeaders'',
                   Std ''URLRewriteMiddleware'', Std ''TransformMethod'',
                   Std ''mockResponseMiddleware'', Std ''RedisCacheMiddleware'',
                   Std ''VirtualEndpoint'', Std ''RequestSigning'',
                   GoPluginMiddleware [] [] False]
      in foldl (postHook gw spec (mwDriver cm)) c10 (mwPostFuncs cm))"

text \<open>Lines 486 to 492: the sequence \<^verbatim>\<open>simpleArray\<close> of the rate-limit side-chain.\<close>

definition processSpec_simpleArray :: "gateway \<Rightarrow> APISpec \<Rightarrow> mw list \<Rightarrow> mw list" where
  "processSpec_simpleArray gw spec authArray =
     (let s1 = foldl (mwAppendEnabled gw spec) []
                 [Std ''IPWhiteListMiddleware'', Std ''IPBlackListMiddleware'',
                  Std ''OrganizationMonitor'', Std ''VersionCheck'']
      in foldl (mwAppendEnabled gw spec) (s1 @ authArray)
           [Std ''KeyExpired'', Std ''AccessRightsCheck''])"

text \<open>
  Lines 221 to 533, on the descriptor that left the arbitration and the chain object as
  it is then. Left out: the stores, the JavaScript paths, the reverse proxy and the
  response chain, the analytics plugin and the logging, which write no field a chain
  object has.
\<close>

definition processSpec_chain ::
  "gateway \<Rightarrow> string \<Rightarrow> APISpec \<Rightarrow> ChainObject \<Rightarrow> APISpec \<times> ChainObject" where
  "processSpec_chain gw quotaKey spec chainDef =
     (let cm = processSpec_customMiddleware gw spec;
          spec1 = spec\<lparr>target := urlParse gw (TargetURL spec)\<rparr>;
          chainDef1 = (if UseKeylessAccess spec1 then chainDef\<lparr>Open := True\<rparr> else chainDef);
          authArray = (if \<not> UseKeylessAccess spec1 then processSpec_authArray gw spec1 cm else []);
          chain = Chain (processSpec_chainArray gw quotaKey spec1 cm authArray) DummyProxyHandler;
          chainDef2 = (if \<not> UseKeylessAccess spec1
                       then chainDef1\<lparr>RateLimitChain :=
                              Some (Chain (processSpec_simpleArray gw spec1 authArray) userRatesCheck)\<rparr>
                       else chainDef1);
          chainDef3 = (if traceIsEnabled gw
                       then chainDef2\<lparr>ThisHandler := Some (TraceHandle (Name spec1) chain)\<rparr>
                       else if OpenTelemetryEnabled gw
                       then chainDef2\<lparr>ThisHandler := Some (OtelHTTPHandler (Name spec1) chain)\<rparr>
                       else chainDef2\<lparr>ThisHandler := Some chain\<rparr>)
      in (spec1, chainDef3))"

subsection \<open>processSpec\<close>

text \<open>
  \<^verbatim>\<open>processSpec\<close> mutates the descriptor it is given and returns the chain object: the
  model returns both. \<open>quotaKey\<close> is the option of \<^verbatim>\<open>ProcessSpecOptions\<close> (empty by
  default). \<open>None\<close> is an arbitration loop that never leaves.
\<close>

definition processSpec ::
  "gateway \<Rightarrow> string \<Rightarrow> APISpec \<Rightarrow> listenCount \<Rightarrow> (APISpec \<times> ChainObject) option" where
  "processSpec gw quotaKey spec apisByListen =
     (let chainDef = \<lparr>ThisHandler = None, RateLimitChain = None, Open = False, Skip = False\<rparr>;
          spec1 = processSpec_tls spec;
          spec2 = (if length (TagHeaders spec1) > 0
                   then spec1\<lparr>TagHeaders := map (ToLower gw) (TagHeaders spec1)\<rparr> else spec1)
      in case skipSpecBecauseInvalid gw spec2 of
           (True, spec3) \<Rightarrow> Some (spec3, chainDef\<lparr>Skip := True\<rparr>)
         | (False, spec3) \<Rightarrow>
             (let chainDef1 = (if Internal spec3 then chainDef\<lparr>Skip := True\<rparr> else chainDef)
              in case processSpec_listenPath gw apisByListen False spec3 of
                   None \<Rightarrow> None
                 | Some (spec4, pathModified) \<Rightarrow> Some (processSpec_chain gw quotaKey spec4 chainDef1)))"

section \<open>Router registry\<close>

subsection \<open>Strict-prefix gate\<close>

text \<open>\<^verbatim>\<open>strings.HasPrefix\<close>, \<^verbatim>\<open>strings.HasSuffix\<close> and \<^verbatim>\<open>strings.Contains\<close> of one byte.\<close>

definition HasPrefix :: "string \<Rightarrow> string \<Rightarrow> bool" where
  "HasPrefix s pre = (length pre \<le> length s \<and> take (length pre) s = pre)"

definition HasSuffix :: "string \<Rightarrow> string \<Rightarrow> bool" where
  "HasSuffix s suf = (length suf \<le> length s \<and> drop (length s - length suf) s = suf)"

definition ContainsByte :: "string \<Rightarrow> char \<Rightarrow> bool" where
  "ContainsByte s c = (c \<in> set s)"

text \<open>\<^verbatim>\<open>http.StatusNotFound\<close>, \<^verbatim>\<open>http.StatusInternalServerError\<close> and \<^verbatim>\<open>http.StatusText\<close> of the former.\<close>

definition StatusNotFound :: nat where
  "StatusNotFound = 404"

definition StatusInternalServerError :: nat where
  "StatusInternalServerError = 500"

definition StatusText_NotFound :: string where
  "StatusText_NotFound = ''Not Found''"

text \<open>
  What serving a request at the gate does: it calls the inner handler with the request, or
  writes a status and a body.
\<close>

datatype gateOutcome = Forward "handler option" request | WriteResponse nat string

text \<open>\<^verbatim>\<open>explicitRouteHandler.ServeHTTP\<close>, on the fields \<open>prefix\<close> and \<open>handler\<close> of the struct.\<close>

definition explicitRouteHandler_ServeHTTP ::
  "string \<Rightarrow> handler option \<Rightarrow> request \<Rightarrow> gateOutcome" where
  "explicitRouteHandler_ServeHTTP prefix h r =
     (if Path (URL r) = prefix \<or> HasPrefix (Path (URL r)) (prefix @ ''/'')
      then Forward h r
      else WriteResponse StatusNotFound StatusText_NotFound)"

definition explicitRouteSubpaths :: "string \<Rightarrow> handler option \<Rightarrow> bool \<Rightarrow> handler option" where
  "explicitRouteSubpaths prefix h enabled =
     (if \<not> enabled then h
      else if HasSuffix prefix ''/'' then h
      else if ContainsByte prefix CHR ''{'' \<and> ContainsByte prefix CHR ''}'' then h
      else Some (ExplicitRouteHandler prefix h))"

subsection \<open>loadHTTPService\<close>

text \<open>
  The routes \<^verbatim>\<open>loadHTTPService\<close> registers under a prefix, in order: the sub-routes of
  \<^verbatim>\<open>generateSubRoutes\<close>, the rate-limit endpoint, the catch-all route of the handler.
\<close>

datatype route =
    PlaygroundRoute string
  | BatchRoute string
  | OAuthRoute string
  | RateLimitRoute string "handler option"
  | HandlerRoute string "handler option"

definition generateSubRoutes :: "APISpec \<Rightarrow> string \<Rightarrow> route list" where
  "generateSubRoutes spec prefix =
     (if GraphQLPlaygroundEnabled spec then [PlaygroundRoute prefix] else []) @
     (if EnableBatchRequestSupport spec then [BatchRoute prefix] else []) @
     (if UseOauth2 spec then [OAuthRoute prefix] else [])"

definition registerPrefix :: "gateway \<Rightarrow> APISpec \<Rightarrow> ChainObject \<Rightarrow> string \<Rightarrow> route list" where
  "registerPrefix gw spec chainObj prefix =
     generateSubRoutes spec prefix @
     (if \<not> Open chainObj then [RateLimitRoute prefix (RateLimitChain chainObj)] else []) @
     [HandlerRoute prefix
        (explicitRouteSubpaths prefix (ThisHandler chainObj) (EnableStrictRoutes gw))]"

datatype loadError = InvalidListenPath | LoadPanic fault

text \<open>
  \<^verbatim>\<open>loadHTTPService\<close>: the descriptor as it is afterwards, the chain object and the routes
  registered, or the error returned, or a panic (a chain object that is nil, a stored value
  that is no chain object). The choice of the router (port, protocol, host) is left out.
\<close>

definition loadHTTPService ::
  "gateway \<Rightarrow> APISpec \<Rightarrow> listenCount \<Rightarrow> (loadError + APISpec \<times> ChainObject \<times> route list) option" where
  "loadHTTPService gw spec apisByListen =
     (if \<not> ValidatePath gw (ListenPath spec) then Some (Inl InvalidListenPath)
      else
        let processed =
              (if \<not> shouldReloadSpec gw (getApiSpec gw (APIID spec)) spec then
                 (case apisHandlesByID gw (APIID spec) of
                    None \<Rightarrow> Some (Inl (LoadPanic NilPointerDereference))
                  | Some StoredOther \<Rightarrow> Some (Inl (LoadPanic TypeAssertionFailed))
                  | Some (StoredChain chain) \<Rightarrow> Some (Inr (spec, chain)))
               else map_option Inr (processSpec gw [] spec apisByListen))
        in case processed of
             None \<Rightarrow> None
           | Some (Inl e) \<Rightarrow> Some (Inl e)
           | Some (Inr (spec1, chainObj)) \<Rightarrow>
               if Skip chainObj then Some (Inr (spec1, chainObj, []))
               else
                 let prefixes = [''/'' @ APIID spec1 @ ''/'', ListenPath spec1]
                 in Some (Inr (spec1, chainObj,
                      concat (map (registerPrefix gw spec1 chainObj) prefixes))))"

section \<open>Descriptor sort\<close>

text \<open>\<^verbatim>\<open>strings.Split(s, "/")\<close> for any separator byte.\<close>

fun Split :: "char \<Rightarrow> string \<Rightarrow> string list" where
  "Split sep [] = [[]]"
| "Split sep (c # cs) =
     (if c = sep then [] # Split sep cs
      else (case Split sep cs of
              seg # segs \<Rightarrow> (c # seg) # segs
            | [] \<Rightarrow> [[c]]))"

text \<open>The loop of \<^verbatim>\<open>listenPathLength\<close> over the segments.\<close>

fun segmentsLoop :: "int \<Rightarrow> string list \<Rightarrow> int" where
  "segmentsLoop len [] = len"
| "segmentsLoop len (segment # segments) =
     (if length segment > 2 \<and> segment ! 0 = CHR ''{'' \<and> segment ! (length segment - 1) = CHR ''}''
      then segmentsLoop len segments
      else segmentsLoop (len + int (length segment)) segments)"

definition listenPathLength :: "string \<Rightarrow> int" where
  "listenPathLength listenPath =
     (if \<not> ContainsByte listenPath CHR ''{'' then int (length listenPath)
      else segmentsLoop (int (count_list listenPath CHR ''/'')) (Split CHR ''/'' listenPath))"

text \<open>The comparison \<^verbatim>\<open>less\<close> that \<^verbatim>\<open>sortSpecsByListenPath\<close> hands to \<^verbatim>\<open>sort.Slice\<close>.\<close>

definition specLess :: "APISpec \<Rightarrow> APISpec \<Rightarrow> bool" where
  "specLess a b =
     (if (Domain a = []) \<noteq> (Domain b = []) then Domain a \<noteq> []
      else listenPathLength (ListenPath a) > listenPathLength (ListenPath b))"

text \<open>
  \<^verbatim>\<open>sort.Slice\<close> is Go's library, not the repository's. Its contract: the slice is
  rearranged in place so that no later element is less than an earlier one; the order of
  elements that compare equal is not promised (that is \<^verbatim>\<open>sort.SliceStable\<close>). The model
  is that contract, as a relation between the slice before and after.
\<close>

definition sortSlice :: "('a \<Rightarrow> 'a \<Rightarrow> bool) \<Rightarrow> 'a list \<Rightarrow> 'a list \<Rightarrow> bool" where
  "sortSlice lt xs ys = (mset ys = mset xs \<and> sorted_wrt (\<lambda>a b. \<not> lt b a) ys)"

definition sortSpecsByListenPath :: "APISpec list \<Rightarrow> APISpec list \<Rightarrow> bool" where
  "sortSpecsByListenPath specs specs' = sortSlice specLess specs specs'"

text \<open>
  The specification's words. A sort is stable when elements that compare equal keep their
  order; the effective length is the count of \<open>/\<close> plus the sum of the literal segment
  lengths, the segments enclosed in braces (around a content that is not empty) excluded.
\<close>

definition stableSort :: "('a \<Rightarrow> 'a \<Rightarrow> bool) \<Rightarrow> 'a list \<Rightarrow> 'a list \<Rightarrow> bool" where
  "stableSort lt xs ys =
     list_all (\<lambda>x. filter (\<lambda>y. \<not> lt x y \<and> \<not> lt y x) ys =
                   filter (\<lambda>y. \<not> lt x y \<and> \<not> lt y x) xs) xs"

definition paramSegment :: "string \<Rightarrow> bool" where
  "paramSegment seg = (length seg > 2 \<and> hd seg = CHR ''{'' \<and> last seg = CHR ''}'')"

definition effectiveLength :: "string \<Rightarrow> int" where
  "effectiveLength p =
     int (count_list p CHR ''/'') +
     sum_list (map (\<lambda>seg. int (length seg)) (filter (\<lambda>seg. \<not> paramSegment seg) (Split CHR ''/'' p)))"

section \<open>Loop dispatcher\<close>

subsection \<open>Canonical looping name\<close>

text \<open>\<^verbatim>\<open>strings.Index(s, "#")\<close> for any byte: the index of its first occurrence, or -1.\<close>

fun IndexByte :: "string \<Rightarrow> char \<Rightarrow> int" where
  "IndexByte [] c = - 1"
| "IndexByte (x # xs) c =
     (if x = c then 0 else (let i = IndexByte xs c in if i = - 1 then - 1 else i + 1))"

text \<open>
  The slice expression \<^verbatim>\<open>s[:h]\<close> of Go: a run-time panic unless \<open>0 \<le> h \<le> len(s)\<close>.
\<close>

definition sliceTo :: "string \<Rightarrow> int \<Rightarrow> fault + string" where
  "sliceTo s h = (if 0 \<le> h \<and> h \<le> int (length s) then Inr (take (nat h) s)
                  else Inl SliceBoundsOutOfRange)"

definition trimCategories :: "string \<Rightarrow> fault + string" where
  "trimCategories name =
     (let i = IndexByte name CHR ''#''
      in if i \<noteq> - 1 then sliceTo name (i - 1) else Inr name)"

definition APILoopingName :: "gateway \<Rightarrow> string \<Rightarrow> fault + string" where
  "APILoopingName gw name =
     (case trimCategories name of
        Inl e \<Rightarrow> Inl e
      | Inr trimmed \<Rightarrow> Inr (replaceNonAlphaNumeric gw trimmed))"

text \<open>\<^verbatim>\<open>fuzzyFindAPI\<close>: the loop over \<^verbatim>\<open>gw.apisByID\<close>, then the function.\<close>

fun fuzzyFindLoop :: "gateway \<Rightarrow> string \<Rightarrow> APISpec list \<Rightarrow> fault + APISpec option" where
  "fuzzyFindLoop gw search [] = Inr None"
| "fuzzyFindLoop gw search (api # apis) =
     (if APIID api = search \<or> IdHex api = search then Inr (Some api)
      else (case APILoopingName gw (Name api) of
              Inl e \<Rightarrow> Inl e
            | Inr n \<Rightarrow> if EqualFold gw n search then Inr (Some api)
                       else fuzzyFindLoop gw search apis))"

definition fuzzyFindAPI :: "gateway \<Rightarrow> string \<Rightarrow> fault + APISpec option" where
  "fuzzyFindAPI gw search = (if search = [] then Inr None else fuzzyFindLoop gw search (apisByID gw))"

subsection \<open>isLoop\<close>

text \<open>The verb \<^verbatim>\<open>%d\<close> of \<^verbatim>\<open>fmt.Errorf\<close>: a Go int in decimal.\<close>

fun decimal :: "nat \<Rightarrow> string" where
  "decimal n = (if n < 10 then [''0123456789'' ! n]
                else decimal (n div 10) @ [''0123456789'' ! (n mod 10)])"

definition fmt_d :: "int \<Rightarrow> string" where
  "fmt_d i = (if i < 0 then ''-'' @ decimal (nat (- i)) else decimal (nat i))"

definition defaultLoopLevelLimit :: int where
  "defaultLoopLevelLimit = 5"

text \<open>\<^verbatim>\<open>isLoop\<close> returns \<^verbatim>\<open>(bool, error)\<close>; the error is its message, \<open>None\<close> for nil.\<close>

definition isLoop :: "request \<Rightarrow> bool \<times> string option" where
  "isLoop r =
     (if Scheme (URL r) \<noteq> ''tyk'' then (False, None)
      else
        let limit0 = ctxLoopLevelLimit r;
            limit = (if limit0 = 0 then defaultLoopLevelLimit else limit0)
        in if ctxLoopLevel r > limit
           then (True, Some (''Loop level too deep. Found more than '' @ fmt_d limit @
                             '' loops in single request''))
           else (True, None))"

subsection \<open>DummyProxyHandler.ServeHTTP\<close>

text \<open>
  What the handler does with a request, as the call it ends in: \<open>HandleError r msg code\<close>
  is \<^verbatim>\<open>ErrorHandler.HandleError(w, r, msg, code, true)\<close>, \<open>HandlerServeHTTP h r\<close> is
  \<^verbatim>\<open>handler.ServeHTTP(w, r)\<close> of a chain, \<open>SuccessHandlerServeHTTP r\<close> is
  \<^verbatim>\<open>d.SH.ServeHTTP(w, r)\<close>, \<open>Panic\<close> a run-time panic. Each carries the request as it is
  at that call.
\<close>

datatype outcome =
    HandleError request string nat
  | HandlerServeHTTP handler request
  | SuccessHandlerServeHTTP request
  | Panic fault

text \<open>The handler a loop is sent to: \<^verbatim>\<open>apisHandlesByID.Load\<close> and the cast (lines 612 to 618).\<close>

definition loadThisHandler :: "gateway \<Rightarrow> string \<Rightarrow> handler option" where
  "loadThisHandler gw apiID =
     (case apisHandlesByID gw apiID of
        Some (StoredChain chain) \<Rightarrow> ThisHandler chain
      | Some StoredOther \<Rightarrow> None
      | None \<Rightarrow> None)"

text \<open>Lines 637 to 649: the end of the loop branch, the target handler found or nil.\<close>

definition ServeHTTP_loopTail :: "gateway \<Rightarrow> handler option \<Rightarrow> request \<Rightarrow> outcome" where
  "ServeHTTP_loopTail gw h r =
     (let loopLevelLimit = Atoi gw (queryGet gw (URL r) ''loop_limit'');
          r1 = r\<lparr>ctxCheckLoopLimits := (queryGet gw (URL r) ''check_limits'' = ''true'')\<rparr>;
          r2 = (case ctxOrigRequestURL r1 of
                  Some origURL \<Rightarrow>
                    r1\<lparr>URL := (URL r1)\<lparr>Host := Host origURL, RawQuery := RawQuery origURL\<rparr>,
                       ctxOrigRequestURL := None\<rparr>
                | None \<Rightarrow> r1);
          r3 = ctxIncLoopLevel gw r2 loopLevelLimit
      in case h of
           None \<Rightarrow> Panic NilPointerDereference
         | Some handler \<Rightarrow> HandlerServeHTTP handler r3)"

text \<open>Lines 604 to 635: the loop branch, once \<^verbatim>\<open>isLoop\<close> has found a loop without error.\<close>

definition ServeHTTP_loop :: "gateway \<Rightarrow> APISpec \<Rightarrow> request \<Rightarrow> outcome" where
  "ServeHTTP_loop gw spec r =
     (let r1 = r\<lparr>URL := (URL r)\<lparr>Scheme := ''http''\<rparr>\<rparr>;
          methodOverride = queryGet gw (URL r1) ''method'';
          r2 = (if methodOverride \<noteq> [] then r1\<lparr>Method := methodOverride\<rparr> else r1)
      in if Hostname gw (URL r2) = ''self''
         then ServeHTTP_loopTail gw (loadThisHandler gw (APIID spec)) (r2\<lparr>ctxSelfLooping := True\<rparr>)
         else
           let r3 = r2\<lparr>ctxVersionInfo := None\<rparr>
           in (case fuzzyFindAPI gw (Hostname gw (URL r3)) of
                 Inl e \<Rightarrow> Panic e
               | Inr (Some targetAPI) \<Rightarrow>
                   ServeHTTP_loopTail gw (loadThisHandler gw (APIID targetAPI)) r3
               | Inr None \<Rightarrow>
                   HandleError r3 ''Can't detect loop target'' StatusInternalServerError))"

text \<open>\<^verbatim>\<open>findInternalHttpHandlerByNameOrID\<close>; \<open>None\<close> is \<^verbatim>\<open>ok = false\<close>.\<close>

definition findInternalHttpHandlerByNameOrID ::
  "gateway \<Rightarrow> string \<Rightarrow> fault + (handler option \<times> APISpec) option" where
  "findInternalHttpHandlerByNameOrID gw apiNameOrID =
     (case fuzzyFindAPI gw apiNameOrID of
        Inl e \<Rightarrow> Inl e
      | Inr None \<Rightarrow> Inr None
      | Inr (Some targetAPI) \<Rightarrow>
          (case apisHandlesByID gw (APIID targetAPI) of
             None \<Rightarrow> Inr None
           | Some StoredOther \<Rightarrow> Inl TypeAssertionFailed
           | Some (StoredChain chain) \<Rightarrow> Inr (Some (ThisHandler chain, targetAPI))))"

text \<open>Lines 652 to 677: a request that is no loop.\<close>

definition ServeHTTP_target :: "gateway \<Rightarrow> APISpec \<Rightarrow> request \<Rightarrow> outcome" where
  "ServeHTTP_target gw spec r =
     (case target spec of
        None \<Rightarrow> Panic NilPointerDereference
      | Some t \<Rightarrow>
          if Scheme t = ''tyk'' then
            (case findInternalHttpHandlerByNameOrID gw (Host t) of
               Inl e \<Rightarrow> Panic e
             | Inr None \<Rightarrow> HandleError r ''Couldn't detect target'' StatusInternalServerError
             | Inr (Some (h, targetAPI)) \<Rightarrow>
                 (case getRedirectTargetUrl gw spec (ctxInternalRedirectTarget r) of
                    None \<Rightarrow>
                      HandleError r ''Failed to perform internal redirect'' StatusInternalServerError
                  | Some targetUrl \<Rightarrow>
                      let r1 = SanitizeProxyPaths gw spec r;
                          r2 = r1\<lparr>ctxInternalRedirectTarget := Some targetUrl,
                                  ctxVersionInfo := None\<rparr>
                      in (case h of
                            None \<Rightarrow> Panic NilPointerDereference
                          | Some handler \<Rightarrow> HandlerServeHTTP handler r2)))
          else SuccessHandlerServeHTTP r)"

text \<open>
  \<^verbatim>\<open>DummyProxyHandler.ServeHTTP\<close>; \<open>spec\<close> is \<^verbatim>\<open>d.SH.Spec\<close>. Lines 589 to 596 consume the
  two context fields, line 597 asks \<^verbatim>\<open>isLoop\<close>.
\<close>

definition ServeHTTP :: "gateway \<Rightarrow> APISpec \<Rightarrow> request \<Rightarrow> outcome" where
  "ServeHTTP gw spec r =
     (let r1 = (case ctxURLRewriteTarget r of
                  Some newURL \<Rightarrow> r\<lparr>URL := newURL, ctxURLRewriteTarget := None\<rparr>
                | None \<Rightarrow> r);
          r2 = (if ctxTransformRequestMethod r1 \<noteq> []
                then r1\<lparr>Method := ctxTransformRequestMethod r1, ctxTransformRequestMethod := []\<rparr>
                else r1)
      in case isLoop r2 of
           (True, Some err) \<Rightarrow> HandleError r2 err StatusInternalServerError
         | (True, None) \<Rightarrow> ServeHTTP_loop gw spec r2
         | (False, err) \<Rightarrow> ServeHTTP_target gw spec r2)"

section \<open>The specification's words\<close>

text \<open>
  The request after the two context fields are consumed, as the specification says it:
  if \<open>url_rewrite_target\<close> is set, the request URL is replaced by it and the field is
  cleared; then, if \<open>transform_request_method\<close> is set, the request method is replaced by
  it and the field is cleared.
\<close>

definition consumedContext :: "request \<Rightarrow> request" where
  "consumedContext r =
     r\<lparr>URL := (case ctxURLRewriteTarget r of Some u \<Rightarrow> u | None \<Rightarrow> URL r),
       Method := (if ctxTransformRequestMethod r \<noteq> [] then ctxTransformRequestMethod r
                  else Method r),
       ctxURLRewriteTarget := None,
       ctxTransformRequestMethod := []\<rparr>"

text \<open>
  Whitespace, for the specification's \<open>contains whitespace\<close>: space, tab, line feed,
  vertical tab, form feed, carriage return.
\<close>

definition isWhitespace :: "char \<Rightarrow> bool" where
  "isWhitespace c = (c \<in> set [CHR '' '', CHR 0x09, CHR 0x0A, CHR 0x0B, CHR 0x0C, CHR 0x0D])"

definition containsWhitespace :: "string \<Rightarrow> bool" where
  "containsWhitespace s = list_ex isWhitespace s"

section \<open>Concrete inputs\<close>

text \<open>
  A gateway with no stored API, whose collaborators are the simplest of their kind: no
  key-value indirection, a URL parser that rejects a string with a percent sign (an escape
  it cannot decode), every middleware enabled, strict routes on.
\<close>

definition exampleURL :: url where
  "exampleURL = \<lparr>Scheme = ''http'', Host = ''upstream'', Path = ''/'', RawQuery = []\<rparr>"

definition exampleHook :: MiddlewareDefinition where
  "exampleHook = \<lparr>Disabled = True, MwName = [], MwPath = [], RequireSession = False,
                   RawBodyOnly = False\<rparr>"

definition exampleGateway :: gateway where
  "exampleGateway =
     \<lparr>kvStore = (\<lambda>s. None),
      urlParse = (\<lambda>s. if CHR ''%'' \<in> set s then None else Some exampleURL),
      ToLower = (\<lambda>s. s),
      EqualFold = (\<lambda>a b. a = b),
      filepathJoin = (\<lambda>a b. a @ ''/'' @ b),
      pathJoin = (\<lambda>a b. a @ b),
      Atoi = (\<lambda>s. 0),
      queryGet = (\<lambda>u k. []),
      Hostname = Host,
      getApiSpec = (\<lambda>i. None),
      apisByID = [],
      apisHandlesByID = Map.empty,
      shouldReloadSpec = (\<lambda>cur new. True),
      ValidatePath = (\<lambda>p. True),
      replaceNonAlphaNumeric = (\<lambda>s. s),
      ctxIncLoopLevel = (\<lambda>r l. r\<lparr>ctxLoopLevel := ctxLoopLevel r + 1\<rparr>),
      getRedirectTargetUrl = (\<lambda>spec u. u),
      SanitizeProxyPaths = (\<lambda>spec r. r),
      getBundleDestPath = (\<lambda>spec. []),
      loadCustomMiddleware =
        (\<lambda>spec. \<lparr>mwAuthCheckFunc = exampleHook, mwPreFuncs = [], mwPostFuncs = [],
                  mwPostAuthCheckFuncs = [], mwResponseFuncs = [], mwDriver = OttoDriver\<rparr>),
      getStreamingMiddleware = (\<lambda>spec. None),
      getUpstreamBasicAuthMw = (\<lambda>spec. None),
      getUpstreamOAuthMw = (\<lambda>spec. None),
      EnabledForSpec = (\<lambda>spec m. True),
      traceIsEnabled = False,
      OpenTelemetryEnabled = False,
      EnableStrictRoutes = True\<rparr>"

text \<open>
  \<open>exampleSpec apiID domain listenPath\<close>: an HTTP descriptor with token authentication
  and no TLS bounds.
\<close>

definition exampleSpec :: "string \<Rightarrow> string \<Rightarrow> string \<Rightarrow> APISpec" where
  "exampleSpec apiID domain listenPath =
     \<lparr>APIID = apiID, IdHex = [], Name = apiID, Protocol = ''http'', Domain = domain,
      ListenPath = listenPath, TargetURL = ''http://upstream/'', target = None,
      SSLMinVersion = 0, SSLMaxVersion = 0, TagHeaders = [], Internal = False,
      UseKeylessAccess = False, UseStandardAuth = True, UseOauth2 = False,
      CustomPluginAuthEnabled = False, UseGoPluginAuth = False, EnableCoProcessAuth = False,
      Driver = OttoDriver, CustomMiddlewareBundleDisabled = True, CustomMiddlewareBundle = [],
      GraphQLPlaygroundEnabled = False, EnableBatchRequestSupport = False\<rparr>"

definition exampleRequest :: "string \<Rightarrow> string \<Rightarrow> request" where
  "exampleRequest scheme path =
     \<lparr>URL = \<lparr>Scheme = scheme, Host = ''self'', Path = path, RawQuery = []\<rparr>,
      Method = ''GET'', ctxURLRewriteTarget = None, ctxTransformRequestMethod = [],
      ctxLoopLevel = 0, ctxLoopLevelLimit = 0, ctxCheckLoopLimits = False,
      ctxOrigRequestURL = None, ctxSelfLooping = False, ctxVersionInfo = None,
      ctxInternalRedirectTarget = None\<rparr>"

text \<open>
  Thirteen descriptors without domain: twelve at \<open>/a\<close>, then one at \<open>/ab\<close>; and an order
  of them in which the longer path is first and the twelve are no longer in their order.
\<close>

definition thirteenSpecs :: "APISpec list" where
  "thirteenSpecs =
     map (\<lambda>i. exampleSpec i [] ''/a'')
       [''a'', ''b'', ''c'', ''d'', ''e'', ''f'', ''g'', ''h'', ''i'', ''j'', ''k'', ''l''] @
     [exampleSpec ''m'' [] ''/ab'']"

definition thirteenSorted :: "APISpec list" where
  "thirteenSorted =
     exampleSpec ''m'' [] ''/ab'' #
     map (\<lambda>i. exampleSpec i [] ''/a'')
       [''g'', ''c'', ''d'', ''e'', ''f'', ''a'', ''h'', ''i'', ''j'', ''k'', ''l'', ''b'']"

text \<open>
  The suffix cascade: two descriptors at \<open>/x\<close> and two at \<open>/x-b\<close>, all without domain.
\<close>

definition cascadeSpecs :: "APISpec list" where
  "cascadeSpecs =
     [exampleSpec ''a'' [] ''/x'', exampleSpec ''b'' [] ''/x'',
      exampleSpec ''c'' [] ''/x-b'', exampleSpec ''d'' [] ''/x-b'']"

text \<open>
  Two descriptors at \<open>/x\<close> and a third, \<open>c\<close>, at \<open>/x-b\<close>: the path that the suffix gives \<open>b\<close>.
\<close>

definition collidingSpecs :: "APISpec list" where
  "collidingSpecs =
     [exampleSpec ''a'' [] ''/x'', exampleSpec ''b'' [] ''/x'', exampleSpec ''c'' [] ''/x-b'']"

text \<open>A listen path with a tab in it, and a request at loop level 6.\<close>

definition tabPath :: string where
  "tabPath = [CHR ''/'', CHR ''a'', CHR 0x09, CHR ''b'']"

definition deepRequest :: request where
  "deepRequest = (exampleRequest ''tyk'' ''/x'')\<lparr>ctxLoopLevel := 6\<rparr>"

text \<open>
  A request that is no loop, on which earlier middleware has left a rewrite target and a
  method; and what is left of it once both are consumed.
\<close>

definition rewrittenRequest :: request where
  "rewrittenRequest =
     (exampleRequest ''http'' ''/x'')
       \<lparr>ctxURLRewriteTarget := Some (exampleURL\<lparr>Path := ''/y''\<rparr>),
        ctxTransformRequestMethod := ''POST''\<rparr>"

definition rewrittenRequest' :: request where
  "rewrittenRequest' =
     (exampleRequest ''http'' ''/x'')\<lparr>URL := exampleURL\<lparr>Path := ''/y''\<rparr>, Method := ''POST''\<rparr>"

section \<open>Lemmas\<close>

lemma exampleSpec_fields [simp]:
  "APIID (exampleSpec i d p) = i" "Domain (exampleSpec i d p) = d" "ListenPath (exampleSpec i d p) = p"
  by (simp_all add: exampleSpec_def)

subsection \<open>The arbitration loop\<close>

lemma key_simps [simp]:
  "GetAPIDomain (spec\<lparr>ListenPath := p\<rparr>) = GetAPIDomain spec"
  by (simp add: GetAPIDomain_def)

text \<open>The loop once the path is modified: it appends \<open>_\<close> up to the first free key.\<close>

lemma loop_underscores:
  assumes "\<forall>k<n. 2 \<le> mapIndex m (generateDomainPath (GetAPIDomain spec) (ListenPath spec @ replicate k CHR ''_''))"
    and "mapIndex m (generateDomainPath (GetAPIDomain spec) (ListenPath spec @ replicate n CHR ''_'')) < 2"
  shows "processSpec_listenPath gw m True spec =
           Some (spec\<lparr>ListenPath := ListenPath spec @ replicate n CHR ''_''\<rparr>, True)"
  using assms
proof (induction n arbitrary: spec)
  case 0
  then show ?case by (subst processSpec_listenPath.simps) simp
next
  case (Suc n)
  let ?s = "spec\<lparr>ListenPath := ListenPath spec @ ''_''\<rparr>"
  from Suc.prems(1) have "2 \<le> mapIndex m (generateDomainPath (GetAPIDomain spec) (ListenPath spec @ replicate 0 CHR ''_''))"
    by blast
  then have here: "\<not> mapIndex m (generateDomainPath (GetAPIDomain spec) (ListenPath spec)) < 2" by simp
  have a: "\<forall>k<n. 2 \<le> mapIndex m (generateDomainPath (GetAPIDomain ?s) (ListenPath ?s @ replicate k CHR ''_''))"
  proof (intro allI impI)
    fix k assume "k < n"
    then have "Suc k < Suc n" by simp
    with Suc.prems(1) have "2 \<le> mapIndex m (generateDomainPath (GetAPIDomain spec) (ListenPath spec @ replicate (Suc k) CHR ''_''))"
      by blast
    then show "2 \<le> mapIndex m (generateDomainPath (GetAPIDomain ?s) (ListenPath ?s @ replicate k CHR ''_''))"
      by simp
  qed
  have b: "mapIndex m (generateDomainPath (GetAPIDomain ?s) (ListenPath ?s @ replicate n CHR ''_'')) < 2"
    using Suc.prems(2) by simp
  have "processSpec_listenPath gw m True ?s = Some (?s\<lparr>ListenPath := ListenPath ?s @ replicate n CHR ''_''\<rparr>, True)"
    by (rule Suc.IH[OF a b])
  then show ?case
    using here by (subst processSpec_listenPath.simps) simp
qed

text \<open>A finite map leaves a key free among the paths with more and more \<open>_\<close>.\<close>

lemma free_key_exists:
  assumes "finite (dom m)"
  shows "\<exists>n. mapIndex m (d @ p @ replicate n c) < 2"
proof -
  have inj: "inj (\<lambda>n. d @ p @ replicate n c)"
  proof (rule injI)
    fix x y assume "d @ p @ replicate x c = d @ p @ replicate y c"
    then have "replicate x c = replicate y c" by simp
    then have "length (replicate x c) = length (replicate y c)" by (rule arg_cong)
    then show "x = y" by simp
  qed
  have "\<not> finite (range (\<lambda>n. d @ p @ replicate n c))"
    using inj finite_imageD infinite_UNIV_nat by blast
  then have "\<not> range (\<lambda>n. d @ p @ replicate n c) \<subseteq> dom m"
    using assms finite_subset by blast
  then obtain n where "d @ p @ replicate n c \<notin> dom m" by blast
  then have "mapIndex m (d @ p @ replicate n c) = 0"
    by (simp add: mapIndex_def dom_def)
  then show ?thesis by (intro exI[of _ n]) simp
qed

lemma least_free_key:
  assumes "finite (dom m)"
  shows "\<exists>n. mapIndex m (d @ p @ replicate n c) < 2 \<and> (\<forall>k<n. 2 \<le> mapIndex m (d @ p @ replicate k c))"
proof -
  let ?P = "\<lambda>n. mapIndex m (d @ p @ replicate n c) < 2"
  from free_key_exists[OF assms] obtain n0 where "?P n0" by blast
  then have "?P (LEAST n. ?P n)" by (rule LeastI)
  moreover have "\<forall>k<(LEAST n. ?P n). 2 \<le> mapIndex m (d @ p @ replicate k c)"
    using not_less_Least by fastforce
  ultimately show ?thesis by blast
qed

lemma loop_start:
  assumes "finite (dom m)"
  shows "\<exists>spec' pm. processSpec_listenPath gw m False spec = Some (spec', pm) \<and>
     (if mapIndex m (generateDomainPath (GetAPIDomain spec) (ListenPath spec)) < 2
      then spec' = spec \<and> \<not> pm
      else if (\<exists>prev. getApiSpec gw (APIID spec) = Some prev \<and> ListenPath prev = ListenPath spec)
      then spec' = spec \<and> \<not> pm
      else \<exists>n. spec' = spec\<lparr>ListenPath := ListenPath spec @ ''-'' @ APIID spec @ replicate n CHR ''_''\<rparr> \<and> pm \<and>
             mapIndex m (generateDomainPath (GetAPIDomain spec)
               (ListenPath spec @ ''-'' @ APIID spec @ replicate n CHR ''_'')) < 2 \<and>
             (\<forall>k<n. 2 \<le> mapIndex m (generateDomainPath (GetAPIDomain spec)
               (ListenPath spec @ ''-'' @ APIID spec @ replicate k CHR ''_''))))"
proof (cases "mapIndex m (generateDomainPath (GetAPIDomain spec) (ListenPath spec)) < 2")
  case True
  then show ?thesis by (subst processSpec_listenPath.simps) auto
next
  case dup: False
  show ?thesis
  proof (cases "\<exists>prev. getApiSpec gw (APIID spec) = Some prev \<and> ListenPath prev = ListenPath spec")
    case True
    then show ?thesis using dup by (subst processSpec_listenPath.simps) auto
  next
    case noprev: False
    let ?s = "spec\<lparr>ListenPath := ListenPath spec @ ''-'' @ APIID spec\<rparr>"
    from least_free_key[OF assms, of "GetAPIDomain spec" "ListenPath spec @ ''-'' @ APIID spec" "CHR ''_''"]
    obtain n where n: "mapIndex m (GetAPIDomain spec @ (ListenPath spec @ ''-'' @ APIID spec) @ replicate n CHR ''_'') < 2"
      and least: "\<forall>k<n. 2 \<le> mapIndex m (GetAPIDomain spec @ (ListenPath spec @ ''-'' @ APIID spec) @ replicate k CHR ''_'')"
      by blast
    have "processSpec_listenPath gw m True ?s =
            Some (?s\<lparr>ListenPath := ListenPath ?s @ replicate n CHR ''_''\<rparr>, True)"
      by (rule loop_underscores) (use n least in \<open>simp_all add: generateDomainPath_def\<close>)
    moreover have "processSpec_listenPath gw m False spec = processSpec_listenPath gw m True ?s"
      using dup noprev by (subst processSpec_listenPath.simps) (auto split: option.splits)
    ultimately have "processSpec_listenPath gw m False spec =
        Some (spec\<lparr>ListenPath := ListenPath spec @ ''-'' @ APIID spec @ replicate n CHR ''_''\<rparr>, True)"
      by simp
    then have "\<exists>spec' pm. processSpec_listenPath gw m False spec = Some (spec', pm) \<and>
       (\<exists>n. spec' = spec\<lparr>ListenPath := ListenPath spec @ ''-'' @ APIID spec @ replicate n CHR ''_''\<rparr> \<and> pm \<and>
             mapIndex m (generateDomainPath (GetAPIDomain spec)
               (ListenPath spec @ ''-'' @ APIID spec @ replicate n CHR ''_'')) < 2 \<and>
             (\<forall>k<n. 2 \<le> mapIndex m (generateDomainPath (GetAPIDomain spec)
               (ListenPath spec @ ''-'' @ APIID spec @ replicate k CHR ''_''))))"
      using n least by (auto simp: generateDomainPath_def)
    then show ?thesis
      by (simp only: dup noprev if_False)
  qed
qed

lemma countLoop_finite: "finite (dom cnt) \<Longrightarrow> finite (dom (countLoop cnt specs))"
  by (induction specs arbitrary: cnt) (simp_all add: Let_def)

lemma countApisByListenHash_finite: "finite (dom (countApisByListenHash specs))"
  by (simp add: countApisByListenHash_def countLoop_finite)

lemma cascade_counts:
  "mapIndex (countApisByListenHash cascadeSpecs) ''/x'' = 2"
  "mapIndex (countApisByListenHash cascadeSpecs) ''/x-b'' = 2"
  "mapIndex (countApisByListenHash cascadeSpecs) ''/x-b_'' = 0"
  "mapIndex (countApisByListenHash cascadeSpecs) ''/x-b-d'' = 0"
  by (simp_all add: countApisByListenHash_def cascadeSpecs_def mapIndex_def Let_def
        generateDomainPath_def GetAPIDomain_def)

subsection \<open>Validator and processSpec\<close>

lemma tls_shape:
  "processSpec_tls spec =
     spec\<lparr>SSLMaxVersion := max (SSLMinVersion spec) (if 0 < SSLMaxVersion spec then VersionTLS12 else 0)\<rparr>"
  by (auto simp: processSpec_tls_def Let_def max_def not_less word_le_0_iff)

lemma skip_fst:
  "fst (skipSpecBecauseInvalid gw spec) =
     ((httpFamily (Protocol spec) \<and> (ListenPath spec = [] \<or> CHR '' '' \<in> set (ListenPath spec))) \<or>
      urlParse gw (case kvStore gw (TargetURL spec) of Some v \<Rightarrow> v | None \<Rightarrow> TargetURL spec) = None)"
  by (auto simp: skipSpecBecauseInvalid_def containsSpace_def Let_def split: option.splits)

lemma skip_snd:
  "snd (skipSpecBecauseInvalid gw spec) =
     spec\<lparr>TargetURL := TargetURL (snd (skipSpecBecauseInvalid gw spec))\<rparr>"
  by (simp add: skipSpecBecauseInvalid_def Let_def split: option.splits)

lemma skip_fst_pre:
  "fst (skipSpecBecauseInvalid gw
          (if 0 < length (TagHeaders (processSpec_tls spec))
           then (processSpec_tls spec)\<lparr>TagHeaders := hs\<rparr> else processSpec_tls spec)) =
   fst (skipSpecBecauseInvalid gw spec)"
  by (simp add: skip_fst tls_shape split: option.splits)

lemma processSpec_invalid:
  assumes "fst (skipSpecBecauseInvalid gw spec)"
  shows "\<exists>spec'. processSpec gw q spec m =
           Some (spec', \<lparr>ThisHandler = None, RateLimitChain = None, Open = False, Skip = True\<rparr>)"
proof -
  let ?pre = "if 0 < length (TagHeaders (processSpec_tls spec))
              then (processSpec_tls spec)\<lparr>TagHeaders := map (ToLower gw) (TagHeaders (processSpec_tls spec))\<rparr>
              else processSpec_tls spec"
  from assms have "fst (skipSpecBecauseInvalid gw ?pre)" by (simp only: skip_fst_pre)
  then obtain s3 where "skipSpecBecauseInvalid gw ?pre = (True, s3)"
    by (cases "skipSpecBecauseInvalid gw ?pre") auto
  then show ?thesis
    by (simp add: processSpec_def Let_def)
qed

lemma chain_fields:
  "Open (snd (processSpec_chain gw q spec c)) = (Open c \<or> UseKeylessAccess spec)"
  "Skip (snd (processSpec_chain gw q spec c)) = Skip c"
  "RateLimitChain (snd (processSpec_chain gw q spec c)) =
     (if UseKeylessAccess spec then RateLimitChain c
      else Some (Chain (processSpec_simpleArray gw (spec\<lparr>target := urlParse gw (TargetURL spec)\<rparr>)
                         (processSpec_authArray gw (spec\<lparr>target := urlParse gw (TargetURL spec)\<rparr>)
                            (processSpec_customMiddleware gw spec))) userRatesCheck))"
  "ThisHandler (snd (processSpec_chain gw q spec c)) \<noteq> None"
  "fst (processSpec_chain gw q spec c) = spec\<lparr>target := urlParse gw (TargetURL spec)\<rparr>"
  by (simp_all add: processSpec_chain_def Let_def)

lemma loop_keeps:
  assumes "finite (dom m)"
  shows "\<exists>p pm. processSpec_listenPath gw m False spec = Some (spec\<lparr>ListenPath := p\<rparr>, pm)"
proof -
  have same: "spec = spec\<lparr>ListenPath := ListenPath spec\<rparr>" by simp
  from loop_start[OF assms, of gw spec] obtain spec' pm
    where r: "processSpec_listenPath gw m False spec = Some (spec', pm)"
      and "spec' = spec \<or> (\<exists>n. spec' = spec\<lparr>ListenPath := ListenPath spec @ ''-'' @ APIID spec @ replicate n CHR ''_''\<rparr>)"
    by (auto split: if_splits)
  then have "\<exists>p. spec' = spec\<lparr>ListenPath := p\<rparr>" using same by blast
  with r show ?thesis by blast
qed

lemma processSpec_valid:
  assumes "\<not> fst (skipSpecBecauseInvalid gw spec)" and "finite (dom m)"
  shows "\<exists>s3 spec4 pm.
           ListenPath s3 = ListenPath spec \<and> APIID s3 = APIID spec \<and> Domain s3 = Domain spec \<and>
           processSpec_listenPath gw m False s3 = Some (spec4, pm) \<and>
           UseKeylessAccess spec4 = UseKeylessAccess spec \<and>
           processSpec gw q spec m =
             Some (processSpec_chain gw q spec4
                (if Internal spec
                 then \<lparr>ThisHandler = None, RateLimitChain = None, Open = False, Skip = True\<rparr>
                 else \<lparr>ThisHandler = None, RateLimitChain = None, Open = False, Skip = False\<rparr>))"
proof -
  let ?pre = "if 0 < length (TagHeaders (processSpec_tls spec))
              then (processSpec_tls spec)\<lparr>TagHeaders := map (ToLower gw) (TagHeaders (processSpec_tls spec))\<rparr>
              else processSpec_tls spec"
  from assms(1) have "\<not> fst (skipSpecBecauseInvalid gw ?pre)"
    by (simp only: skip_fst_pre not_False_eq_True)
  then obtain s3 where s3: "skipSpecBecauseInvalid gw ?pre = (False, s3)"
    by (cases "skipSpecBecauseInvalid gw ?pre") auto
  then have "s3 = snd (skipSpecBecauseInvalid gw ?pre)" by simp
  then have "\<exists>t. s3 = ?pre\<lparr>TargetURL := t\<rparr>" using skip_snd[of gw ?pre] by metis
  then obtain t where t: "s3 = ?pre\<lparr>TargetURL := t\<rparr>" by blast
  have f: "UseKeylessAccess s3 = UseKeylessAccess ?pre" "Internal s3 = Internal ?pre"
    "ListenPath s3 = ListenPath ?pre" "APIID s3 = APIID ?pre" "Domain s3 = Domain ?pre"
    unfolding t by simp_all
  have g: "UseKeylessAccess ?pre = UseKeylessAccess spec" "Internal ?pre = Internal spec"
    "ListenPath ?pre = ListenPath spec" "APIID ?pre = APIID spec" "Domain ?pre = Domain spec"
    by (simp_all add: tls_shape)
  from loop_keeps[OF assms(2), of gw s3] obtain p pm
    where l: "processSpec_listenPath gw m False s3 = Some (s3\<lparr>ListenPath := p\<rparr>, pm)" by blast
  have "processSpec gw q spec m =
          Some (processSpec_chain gw q (s3\<lparr>ListenPath := p\<rparr>)
                (if Internal spec
                 then \<lparr>ThisHandler = None, RateLimitChain = None, Open = False, Skip = True\<rparr>
                 else \<lparr>ThisHandler = None, RateLimitChain = None, Open = False, Skip = False\<rparr>))"
    using s3 l f g by (simp add: processSpec_def Let_def)
  moreover have "UseKeylessAccess (s3\<lparr>ListenPath := p\<rparr>) = UseKeylessAccess spec"
    using f g by simp
  ultimately show ?thesis using l f g by metis
qed

lemma processSpec_returns:
  assumes "finite (dom m)"
  shows "\<exists>s c. processSpec gw q spec m = Some (s, c)"
proof (cases "fst (skipSpecBecauseInvalid gw spec)")
  case True
  from processSpec_invalid[OF this] show ?thesis by blast
next
  case False
  from processSpec_valid[OF this assms, of q] show ?thesis by (metis surj_pair)
qed

subsection \<open>Dispatcher\<close>

lemma consumed_eq:
  "(let r1 = (case ctxURLRewriteTarget r of
                  Some newURL \<Rightarrow> r\<lparr>URL := newURL, ctxURLRewriteTarget := None\<rparr>
                | None \<Rightarrow> r)
    in if ctxTransformRequestMethod r1 \<noteq> []
       then r1\<lparr>Method := ctxTransformRequestMethod r1, ctxTransformRequestMethod := []\<rparr>
       else r1) = consumedContext r"
  by (cases "ctxURLRewriteTarget r") (auto simp: consumedContext_def)

lemma ServeHTTP_consumed:
  "ServeHTTP gw spec r =
     (case isLoop (consumedContext r) of
        (True, Some err) \<Rightarrow> HandleError (consumedContext r) err StatusInternalServerError
      | (True, None) \<Rightarrow> ServeHTTP_loop gw spec (consumedContext r)
      | (False, err) \<Rightarrow> ServeHTTP_target gw spec (consumedContext r))"
  by (simp only: ServeHTTP_def Let_def consumed_eq[unfolded Let_def])

subsection \<open>Gate\<close>

lemma HasSuffix_slash: "HasSuffix s ''/'' = (\<exists>pre. s = pre @ ''/'')"
proof
  assume "HasSuffix s ''/''"
  then have "1 \<le> length s" and "drop (length s - 1) s = ''/''" by (simp_all add: HasSuffix_def)
  then have "s = take (length s - 1) s @ ''/''" by (metis append_take_drop_id)
  then show "\<exists>pre. s = pre @ ''/''" by blast
next
  assume "\<exists>pre. s = pre @ ''/''"
  then show "HasSuffix s ''/''" by (auto simp: HasSuffix_def)
qed

lemma HasPrefix_iff: "HasPrefix s p = (\<exists>rest. s = p @ rest)"
proof
  assume "HasPrefix s p"
  then have "take (length p) s = p" by (simp add: HasPrefix_def)
  then have "s = p @ drop (length p) s" by (metis append_take_drop_id)
  then show "\<exists>rest. s = p @ rest" by blast
next
  assume "\<exists>rest. s = p @ rest"
  then show "HasPrefix s p" by (auto simp: HasPrefix_def)
qed

lemma gate_bypass:
  "\<not> enabled \<or> (\<exists>pre. prefix = pre @ ''/'') \<or> (CHR ''{'' \<in> set prefix \<and> CHR ''}'' \<in> set prefix)
   \<Longrightarrow> explicitRouteSubpaths prefix h enabled = h"
  by (auto simp: explicitRouteSubpaths_def HasSuffix_slash ContainsByte_def)

lemma gate_active:
  "enabled \<Longrightarrow> \<not> (\<exists>pre. prefix = pre @ ''/'') \<Longrightarrow> \<not> (CHR ''{'' \<in> set prefix \<and> CHR ''}'' \<in> set prefix)
   \<Longrightarrow> explicitRouteSubpaths prefix h enabled = Some (ExplicitRouteHandler prefix h)"
  by (auto simp: explicitRouteSubpaths_def HasSuffix_slash ContainsByte_def)

lemma gate_serve:
  "explicitRouteHandler_ServeHTTP prefix h r =
        (if Path (URL r) = prefix \<or> (\<exists>rest. Path (URL r) = prefix @ ''/'' @ rest) then Forward h r
         else WriteResponse 404 ''Not Found'')"
  by (simp add: explicitRouteHandler_ServeHTTP_def HasPrefix_iff StatusNotFound_def StatusText_NotFound_def)

lemma no_trailing_slash: "\<not> (\<exists>pre. ''/foo'' = pre @ ''/'')"
proof
  assume "\<exists>pre. ''/foo'' = pre @ ''/''"
  then obtain pre where "''/foo'' = pre @ ''/''" by blast
  then have "last ''/foo'' = last (pre @ ''/'')" by simp
  then show False by simp
qed

lemma foobar_not_under: "\<not> (\<exists>rest. ''/foobar'' = ''/foo'' @ ''/'' @ rest)"
  by simp

subsection \<open>Effective length and the sort\<close>

lemma Split_nonempty: "Split sep p \<noteq> []"
  by (induction p) (auto split: list.splits)

lemma Split_chars: "\<forall>seg \<in> set (Split sep p). set seg \<subseteq> set p"
proof (induction p)
  case Nil
  then show ?case by simp
next
  case (Cons c cs)
  show ?case
  proof (cases "Split sep cs")
    case Nil
    then show ?thesis using Split_nonempty by blast
  next
    case (Cons s ss)
    with Cons.IH show ?thesis by auto
  qed
qed

lemma Split_length:
  "int (length p) = int (count_list p sep) + sum_list (map (\<lambda>seg. int (length seg)) (Split sep p))"
proof (induction p)
  case Nil
  then show ?case by simp
next
  case (Cons c cs)
  then show ?case
    using Split_nonempty[of sep cs] by (cases "Split sep cs") auto
qed

lemma paramSegment_nth:
  "(length seg > 2 \<and> seg ! 0 = CHR ''{'' \<and> seg ! (length seg - 1) = CHR ''}'') = paramSegment seg"
  by (cases seg) (auto simp: paramSegment_def last_conv_nth)

lemma segmentsLoop_sum:
  "segmentsLoop len segs =
     len + sum_list (map (\<lambda>seg. int (length seg)) (filter (\<lambda>seg. \<not> paramSegment seg) segs))"
proof (induction segs arbitrary: len)
  case Nil
  then show ?case by simp
next
  case (Cons seg segs)
  show ?case
    by (simp only: segmentsLoop.simps paramSegment_nth Cons.IH) simp
qed

lemma paramSegment_brace: "paramSegment seg \<Longrightarrow> CHR ''{'' \<in> set seg"
  by (cases seg) (auto simp: paramSegment_def)

lemma listenPathLength_effective: "listenPathLength p = effectiveLength p"
proof (cases "ContainsByte p CHR ''{''")
  case True
  then show ?thesis
    by (simp add: listenPathLength_def effectiveLength_def segmentsLoop_sum)
next
  case False
  then have "\<forall>seg \<in> set (Split CHR ''/'' p). \<not> paramSegment seg"
    using Split_chars[of "CHR ''/''" p] paramSegment_brace by (fastforce simp: ContainsByte_def)
  then have "filter (\<lambda>seg. \<not> paramSegment seg) (Split CHR ''/'' p) = Split CHR ''/'' p"
    by simp
  with False show ?thesis
    using Split_length[of p "CHR ''/''"]
    by (simp add: listenPathLength_def effectiveLength_def)
qed

lemma paramSegment_iff:
  "paramSegment seg = (\<exists>content. content \<noteq> [] \<and> seg = ''{'' @ content @ ''}'')"
proof
  assume p: "paramSegment seg"
  then obtain rest where seg: "seg = CHR ''{'' # rest" and l: "length rest > 1"
    and la: "last seg = CHR ''}''"
    by (cases seg) (auto simp: paramSegment_def)
  from l have ne: "rest \<noteq> []" by auto
  have bl: "butlast rest \<noteq> []" using l by (cases rest) (auto split: if_splits)
  have "last rest = CHR ''}''" using la seg ne by simp
  then have "butlast rest @ ''}'' = rest" using ne append_butlast_last_id[of rest] by simp
  then have "seg = ''{'' @ butlast rest @ ''}''" using seg by simp
  with bl show "\<exists>content. content \<noteq> [] \<and> seg = ''{'' @ content @ ''}''" by blast
next
  assume "\<exists>content. content \<noteq> [] \<and> seg = ''{'' @ content @ ''}''"
  then show "paramSegment seg" by (auto simp: paramSegment_def)
qed

lemma sorted_order:
  assumes "sortSpecsByListenPath specs specs'" and "i < j" and "j < length specs'"
  shows "(Domain (specs' ! i) = [] \<longrightarrow> Domain (specs' ! j) = []) \<and>
         ((Domain (specs' ! i) = []) = (Domain (specs' ! j) = []) \<longrightarrow>
            listenPathLength (ListenPath (specs' ! j)) \<le> listenPathLength (ListenPath (specs' ! i)))"
proof -
  from assms(1) have "sorted_wrt (\<lambda>a b. \<not> specLess b a) specs'"
    by (simp add: sortSpecsByListenPath_def sortSlice_def)
  with assms(2,3) have "\<not> specLess (specs' ! j) (specs' ! i)"
    by (simp add: sorted_wrt_iff_nth_less)
  then show ?thesis
    by (auto simp: specLess_def split: if_splits)
qed

lemma lpl_a: "listenPathLength ''/a'' = 2" by (simp add: listenPathLength_def ContainsByte_def)
lemma lpl_ab: "listenPathLength ''/ab'' = 3" by (simp add: listenPathLength_def ContainsByte_def)

lemma specLess_example:
  "specLess (exampleSpec i [] p) (exampleSpec j [] q) = (listenPathLength q < listenPathLength p)"
  by (simp add: specLess_def)

lemma f1: "map APIID (filter (\<lambda>y. \<not> specLess (exampleSpec ''a'' [] ''/a'') y \<and> \<not> specLess y (exampleSpec ''a'' [] ''/a'')) thirteenSorted)
  = [''g'', ''c'', ''d'', ''e'', ''f'', ''a'', ''h'', ''i'', ''j'', ''k'', ''l'', ''b'']"
  by (simp add: thirteenSorted_def specLess_example lpl_a lpl_ab)

lemma f2: "map APIID (filter (\<lambda>y. \<not> specLess (exampleSpec ''a'' [] ''/a'') y \<and> \<not> specLess y (exampleSpec ''a'' [] ''/a'')) thirteenSpecs)
  = [''a'', ''b'', ''c'', ''d'', ''e'', ''f'', ''g'', ''h'', ''i'', ''j'', ''k'', ''l'']"
  by (simp add: thirteenSpecs_def specLess_example lpl_a lpl_ab)

lemma thirteen_sorted: "sortSpecsByListenPath thirteenSpecs thirteenSorted"
  unfolding sortSpecsByListenPath_def sortSlice_def thirteenSpecs_def thirteenSorted_def
  by (simp add: specLess_example lpl_a lpl_ab)

lemma thirteen_unstable: "\<not> stableSort specLess thirteenSpecs thirteenSorted"
proof
  assume "stableSort specLess thirteenSpecs thirteenSorted"
  then have "list_all (\<lambda>x. filter (\<lambda>y. \<not> specLess x y \<and> \<not> specLess y x) thirteenSorted =
                   filter (\<lambda>y. \<not> specLess x y \<and> \<not> specLess y x) thirteenSpecs) thirteenSpecs"
    by (simp only: stableSort_def)
  moreover have "exampleSpec ''a'' [] ''/a'' \<in> set thirteenSpecs"
    by (simp add: thirteenSpecs_def)
  ultimately have "filter (\<lambda>y. \<not> specLess (exampleSpec ''a'' [] ''/a'') y \<and> \<not> specLess y (exampleSpec ''a'' [] ''/a'')) thirteenSorted =
             filter (\<lambda>y. \<not> specLess (exampleSpec ''a'' [] ''/a'') y \<and> \<not> specLess y (exampleSpec ''a'' [] ''/a'')) thirteenSpecs"
    by (simp only: list_all_iff)
  then have "map APIID (filter (\<lambda>y. \<not> specLess (exampleSpec ''a'' [] ''/a'') y \<and> \<not> specLess y (exampleSpec ''a'' [] ''/a'')) thirteenSorted) =
             map APIID (filter (\<lambda>y. \<not> specLess (exampleSpec ''a'' [] ''/a'') y \<and> \<not> specLess y (exampleSpec ''a'' [] ''/a'')) thirteenSpecs)"
    by (rule arg_cong)
  then show False
    by (simp only: f1 f2) simp
qed

subsection \<open>Looping name\<close>

lemma IndexByte_range: "IndexByte s c = - 1 \<or> (0 \<le> IndexByte s c \<and> IndexByte s c < int (length s))"
  by (induction s) (auto simp: Let_def)

lemma IndexByte_absent: "c \<notin> set s \<Longrightarrow> IndexByte s c = - 1"
  by (induction s) (auto simp: Let_def)

lemma IndexByte_split:
  "c \<notin> set pre \<Longrightarrow> IndexByte (pre @ c # post) c = int (length pre)"
  by (induction pre) (auto simp: Let_def)

lemma looping_name_ok:
  assumes "CHR ''#'' \<notin> set pre" and "x \<noteq> CHR ''#''"
  shows "APILoopingName gw (pre @ [x] @ ''#'' @ post) = Inr (replaceNonAlphaNumeric gw pre)"
proof -
  have "CHR ''#'' \<notin> set (pre @ [x])" using assms by simp
  then have "IndexByte ((pre @ [x]) @ CHR ''#'' # post) CHR ''#'' = int (length (pre @ [x]))"
    by (rule IndexByte_split)
  then have "IndexByte (pre @ [x] @ ''#'' @ post) CHR ''#'' = int (length pre) + 1" by simp
  then show ?thesis
    by (simp add: APILoopingName_def trimCategories_def sliceTo_def Let_def)
qed

lemma looping_name_plain:
  "CHR ''#'' \<notin> set name \<Longrightarrow> APILoopingName gw name = Inr (replaceNonAlphaNumeric gw name)"
  by (simp add: APILoopingName_def trimCategories_def IndexByte_absent)

subsection \<open>Concrete inputs\<close>

lemma deep_consumed: "consumedContext deepRequest = deepRequest"
  by (simp add: consumedContext_def deepRequest_def exampleRequest_def)

lemma rewritten_consumed: "consumedContext rewrittenRequest = rewrittenRequest'"
  by (simp add: consumedContext_def rewrittenRequest_def rewrittenRequest'_def exampleRequest_def)

lemma lpl_param: "listenPathLength ''/users/{id}/x'' = 9"
  by (simp add: listenPathLength_def ContainsByte_def)

lemma example_valid: "\<not> fst (skipSpecBecauseInvalid exampleGateway (exampleSpec ''a'' [] ''/x''))"
  by (simp add: skip_fst exampleGateway_def exampleSpec_def)

text \<open>\<open>processSpec\<close> run on the example descriptor, with token authentication and keyless.\<close>

lemma example_side_chain:
  "map_option (RateLimitChain \<circ> snd)
     (processSpec exampleGateway [] (exampleSpec ''a'' [] ''/x'') Map.empty) =
   Some (Some (Chain
     [Std ''IPWhiteListMiddleware'', Std ''IPBlackListMiddleware'', Std ''OrganizationMonitor'',
      Std ''VersionCheck'', Std ''Oauth2KeyExists'', Std ''ExternalOAuthMiddleware'',
      Std ''BasicAuthKeyIsValid'', Std ''HTTPSignatureValidationMiddleware'',
      Std ''JWTMiddleware'', Std ''OpenIDMW'', Std ''AuthKey'', Std ''KeyExpired'',
      Std ''AccessRightsCheck''] userRatesCheck))"
  by (simp add: processSpec_def processSpec_tls_def skipSpecBecauseInvalid_def httpFamily_def
        containsSpace_def processSpec_listenPath.simps mapIndex_def processSpec_chain_def
        processSpec_simpleArray_def processSpec_authArray_def processSpec_customMiddleware_def
        mwAppendEnabled_def exampleGateway_def exampleSpec_def exampleHook_def Let_def)

lemma example_main_chain:
  "map_option (ThisHandler \<circ> snd)
     (processSpec exampleGateway [] ((exampleSpec ''a'' [] ''/x'')\<lparr>UseKeylessAccess := True\<rparr>) Map.empty) =
   Some (Some (Chain
     [Std ''VersionCheck'', Std ''CORSMiddleware'', Std ''RateCheckMW'',
      Std ''IPWhiteListMiddleware'', Std ''IPBlackListMiddleware'', Std ''CertificateCheckMW'',
      Std ''OrganizationMonitor'', Std ''RequestSizeLimitMiddleware'',
      Std ''MiddlewareContextVars'', Std ''TrackEndpointMiddleware'', RateLimitForAPI [],
      Std ''GraphQLMiddleware'', Std ''ValidateJSON'', Std ''ValidateRequest'',
      Std ''PersistGraphQLOperationMiddleware'', Std ''TransformMiddleware'',
      Std ''TransformJQMiddleware'', Std ''TransformHeaders'', Std ''URLRewriteMiddleware'',
      Std ''TransformMethod'', Std ''mockResponseMiddleware'', Std ''RedisCacheMiddleware'',
      Std ''VirtualEndpoint'', Std ''RequestSigning'', GoPluginMiddleware [] [] False]
     DummyProxyHandler))"
  by (simp add: processSpec_def processSpec_tls_def skipSpecBecauseInvalid_def httpFamily_def
        containsSpace_def processSpec_listenPath.simps mapIndex_def processSpec_chain_def
        processSpec_chainArray_def processSpec_customMiddleware_def appendOpt_def
        mwAppendEnabled_def exampleGateway_def exampleSpec_def exampleHook_def Let_def)

lemma loadHTTPService_invalid:
  assumes "fst (skipSpecBecauseInvalid gw spec)"
    and "ValidatePath gw (ListenPath spec)"
    and "shouldReloadSpec gw (getApiSpec gw (APIID spec)) spec"
  shows "\<exists>spec'. loadHTTPService gw spec m =
           Some (Inr (spec', \<lparr>ThisHandler = None, RateLimitChain = None, Open = False, Skip = True\<rparr>, []))"
proof -
  from processSpec_invalid[OF assms(1), of "[]" m] obtain spec'
    where "processSpec gw [] spec m =
           Some (spec', \<lparr>ThisHandler = None, RateLimitChain = None, Open = False, Skip = True\<rparr>)"
    by blast
  then show ?thesis
    using assms(2,3) by (simp add: loadHTTPService_def)
qed

subsection \<open>Termination of the arbitration loop\<close>

text \<open>
  With the collision map finite, the arbitration loop returns, and so does \<open>processSpec\<close>;
  when the loop returns with the path modified, the path is strictly longer than it was
  and its key has a count below 2.
\<close>

lemma suffixing_loop_returns:
  assumes "finite (dom apisByListen)"
  shows "(\<exists>spec' pathModified.
            processSpec_listenPath gw apisByListen False spec = Some (spec', pathModified) \<and>
            (pathModified \<longrightarrow>
               mapIndex apisByListen (generateDomainPath (GetAPIDomain spec') (ListenPath spec')) < 2 \<and>
               length (ListenPath spec) < length (ListenPath spec'))) \<and>
         (\<exists>spec' chain. processSpec gw quotaKey spec apisByListen = Some (spec', chain))"
proof -
  from loop_start[OF assms, of gw spec] obtain spec' pm
    where r: "processSpec_listenPath gw apisByListen False spec = Some (spec', pm)"
      and c: "if mapIndex apisByListen (generateDomainPath (GetAPIDomain spec) (ListenPath spec)) < 2
        then spec' = spec \<and> \<not> pm
        else if (\<exists>prev. getApiSpec gw (APIID spec) = Some prev \<and> ListenPath prev = ListenPath spec)
        then spec' = spec \<and> \<not> pm
        else \<exists>n. spec' = spec\<lparr>ListenPath := ListenPath spec @ ''-'' @ APIID spec @ replicate n CHR ''_''\<rparr> \<and>
             pm \<and>
             mapIndex apisByListen (generateDomainPath (GetAPIDomain spec)
               (ListenPath spec @ ''-'' @ APIID spec @ replicate n CHR ''_'')) < 2 \<and>
             (\<forall>k<n. 2 \<le> mapIndex apisByListen (generateDomainPath (GetAPIDomain spec)
               (ListenPath spec @ ''-'' @ APIID spec @ replicate k CHR ''_'')))"
    by blast
  have "pm \<longrightarrow>
          mapIndex apisByListen (generateDomainPath (GetAPIDomain spec') (ListenPath spec')) < 2 \<and>
          length (ListenPath spec) < length (ListenPath spec')"
    using c by (auto split: if_splits)
  with r processSpec_returns[OF assms, of gw quotaKey spec] show ?thesis by blast
qed

text \<open>In the suffix cascade the descriptor \<open>d\<close> at \<open>/x-b\<close> ends at \<open>/x-b-d\<close>.\<close>

lemma suffixing_loop_returns_example:
  "finite (dom (countApisByListenHash cascadeSpecs)) \<and>
   processSpec_listenPath exampleGateway (countApisByListenHash cascadeSpecs) False
     (exampleSpec ''d'' [] ''/x-b'') = Some (exampleSpec ''d'' [] ''/x-b-d'', True) \<and>
   mapIndex (countApisByListenHash cascadeSpecs)
     (generateDomainPath (GetAPIDomain (exampleSpec ''d'' [] ''/x-b-d''))
        (ListenPath (exampleSpec ''d'' [] ''/x-b-d''))) < 2 \<and>
   length (ListenPath (exampleSpec ''d'' [] ''/x-b'')) < length (ListenPath (exampleSpec ''d'' [] ''/x-b-d'')) \<and>
   (\<exists>spec' chain. processSpec exampleGateway [] (exampleSpec ''d'' [] ''/x-b'')
       (countApisByListenHash cascadeSpecs) = Some (spec', chain))"
proof -
  let ?m = "countApisByListenHash cascadeSpecs"
  have fin: "finite (dom ?m)" by (rule countApisByListenHash_finite)
  have run: "processSpec_listenPath exampleGateway ?m False (exampleSpec ''d'' [] ''/x-b'') =
               Some (exampleSpec ''d'' [] ''/x-b-d'', True)"
    by (simp add: processSpec_listenPath.simps cascade_counts generateDomainPath_def GetAPIDomain_def
          exampleGateway_def exampleSpec_def)
  show ?thesis
    using suffixing_loop_returns[OF fin, of exampleGateway "exampleSpec ''d'' [] ''/x-b''" "[]"] fin run
    by (simp add: cascade_counts generateDomainPath_def GetAPIDomain_def)
qed

lemma colliding_counts:
  "mapIndex (countApisByListenHash collidingSpecs) ''/x'' = 2"
  "mapIndex (countApisByListenHash collidingSpecs) ''/x-b'' = 1"
  by (simp_all add: countApisByListenHash_def collidingSpecs_def mapIndex_def Let_def
        generateDomainPath_def GetAPIDomain_def)

section \<open>The claims\<close>

text \<open>
  C1. Listen-path arbitration in processSpec. With the collision map finite, the loop
  returns. A descriptor whose key (domain then listen path) has a count below 2 keeps its
  path. One whose key has a count of 2 or more keeps its path when the previously loaded
  descriptor of the same API id holds exactly this listen path; otherwise \<open>-\<close> and the API
  id are appended once, then \<open>_\<close> as many times as it takes (\<open>n\<close> times, \<open>n\<close> the least) for
  the key, formed anew from the domain and the path after each change, to have a count
  below 2. Nothing but the listen path changes. (The loop is lines 194 to 216;
  \<open>processSpec\<close> runs it on every descriptor the validator lets through, with the listen
  path, the API id and the domain it was given.)
\<close>

theorem C1_listen_path_arbitration:
  assumes "finite (dom apisByListen)"
  shows "\<exists>spec' pathModified.
     processSpec_listenPath gw apisByListen False spec = Some (spec', pathModified) \<and>
     (if mapIndex apisByListen (generateDomainPath (GetAPIDomain spec) (ListenPath spec)) < 2
      then spec' = spec \<and> \<not> pathModified
      else if (\<exists>prev. getApiSpec gw (APIID spec) = Some prev \<and> ListenPath prev = ListenPath spec)
      then spec' = spec \<and> \<not> pathModified
      else \<exists>n. spec' = spec\<lparr>ListenPath := ListenPath spec @ ''-'' @ APIID spec @ replicate n CHR ''_''\<rparr> \<and>
             pathModified \<and>
             mapIndex apisByListen (generateDomainPath (GetAPIDomain spec)
               (ListenPath spec @ ''-'' @ APIID spec @ replicate n CHR ''_'')) < 2 \<and>
             (\<forall>k<n. 2 \<le> mapIndex apisByListen (generateDomainPath (GetAPIDomain spec)
               (ListenPath spec @ ''-'' @ APIID spec @ replicate k CHR ''_''))))"
  using assms by (rule loop_start)

text \<open>
  In the suffix cascade the descriptor \<open>b\<close> at \<open>/x\<close>, not loaded before, ends at \<open>/x-b_\<close>:
  \<open>/x\<close> and \<open>/x-b\<close> are both taken twice.
\<close>

theorem C1_listen_path_arbitration_witness:
  "finite (dom (countApisByListenHash cascadeSpecs)) \<and>
   processSpec_listenPath exampleGateway (countApisByListenHash cascadeSpecs) False
     (exampleSpec ''b'' [] ''/x'') = Some (exampleSpec ''b'' [] ''/x-b_'', True)"
proof -
  let ?m = "countApisByListenHash cascadeSpecs"
  let ?s = "exampleSpec ''b'' [] ''/x''"
  have fin: "finite (dom ?m)" by (rule countApisByListenHash_finite)
  have noprev: "getApiSpec exampleGateway (APIID ?s) = None" by (simp add: exampleGateway_def)
  have c1: "\<not> mapIndex ?m (generateDomainPath (GetAPIDomain ?s) (ListenPath ?s)) < 2"
    by (simp add: cascade_counts generateDomainPath_def GetAPIDomain_def)
  have c2: "\<not> (\<exists>prev. getApiSpec exampleGateway (APIID ?s) = Some prev \<and> ListenPath prev = ListenPath ?s)"
    by (simp add: exampleGateway_def)
  from C1_listen_path_arbitration[OF fin, of exampleGateway ?s] obtain spec' pm
    where res: "processSpec_listenPath exampleGateway ?m False ?s = Some (spec', pm)"
      and "\<exists>n. spec' = ?s\<lparr>ListenPath := ListenPath ?s @ ''-'' @ APIID ?s @ replicate n CHR ''_''\<rparr> \<and>
             pm \<and>
             mapIndex ?m (generateDomainPath (GetAPIDomain ?s)
               (ListenPath ?s @ ''-'' @ APIID ?s @ replicate n CHR ''_'')) < 2 \<and>
             (\<forall>k<n. 2 \<le> mapIndex ?m (generateDomainPath (GetAPIDomain ?s)
               (ListenPath ?s @ ''-'' @ APIID ?s @ replicate k CHR ''_'')))"
    unfolding if_not_P[OF c1] if_not_P[OF c2] by blast
  then obtain n where sp: "spec' = ?s\<lparr>ListenPath := ''/x-b'' @ replicate n CHR ''_''\<rparr>" and pm: pm
    and free: "mapIndex ?m (''/x-b'' @ replicate n CHR ''_'') < 2"
    and least: "\<forall>k<n. 2 \<le> mapIndex ?m (''/x-b'' @ replicate k CHR ''_'')"
    by (auto simp: generateDomainPath_def GetAPIDomain_def)
  have "n \<noteq> 0" using free cascade_counts(2) by (intro notI) simp
  moreover have "\<not> 1 < n"
  proof
    assume "1 < n"
    with least have "2 \<le> mapIndex ?m (''/x-b'' @ replicate 1 CHR ''_'')" by blast
    then show False using cascade_counts(3) by simp
  qed
  ultimately have "n = 1" by simp
  with sp have "spec' = exampleSpec ''b'' [] ''/x-b_''" by (simp add: exampleSpec_def)
  with res pm fin show ?thesis by simp
qed

text \<open>
  C2, amended. After the TLS normalisation step \<open>ssl_min_version \<le> ssl_max_version\<close>, the
  minimum is unchanged, and the maximum is the larger of the minimum and the clamped
  maximum (TLS 1.2 for a maximum that was not zero, 0 otherwise): so it is 0, TLS 1.2 or
  the minimum.
\<close>

theorem C2_tls_normalisation:
  "SSLMinVersion (processSpec_tls spec) \<le> SSLMaxVersion (processSpec_tls spec) \<and>
   SSLMinVersion (processSpec_tls spec) = SSLMinVersion spec \<and>
   SSLMaxVersion (processSpec_tls spec) =
     max (SSLMinVersion spec) (if 0 < SSLMaxVersion spec then VersionTLS12 else 0) \<and>
   SSLMaxVersion (processSpec_tls spec) \<in> {0, VersionTLS12, SSLMinVersion spec}"
  by (auto simp: tls_shape max_def)

text \<open>
  C2 as stated (\<open>ssl_max_version \<in> {0, TLS1.2}\<close>) fails for a descriptor whose minimum is
  TLS 1.3 (0x0304): the second assignment raises the maximum to it.
\<close>

theorem C2_tls_clamp_counterexample:
  "\<not> (SSLMaxVersion (processSpec_tls ((exampleSpec ''a'' [] ''/x'')\<lparr>SSLMinVersion := 0x0304, SSLMaxVersion := 0x0304\<rparr>))
        \<in> {0, VersionTLS12} \<and>
      SSLMinVersion (processSpec_tls ((exampleSpec ''a'' [] ''/x'')\<lparr>SSLMinVersion := 0x0304, SSLMaxVersion := 0x0304\<rparr>))
        \<le> SSLMaxVersion (processSpec_tls ((exampleSpec ''a'' [] ''/x'')\<lparr>SSLMinVersion := 0x0304, SSLMaxVersion := 0x0304\<rparr>)))"
  by (simp add: tls_shape VersionTLS12_def exampleSpec_def)

text \<open>
  C3. Loop-depth check. \<open>isLoop\<close> reports a loop exactly when the scheme of the request URL
  is \<open>tyk\<close>; it returns an error exactly when, on top of that, the loop level of the request
  exceeds the cap, which is the limit of the request context when that is not zero and 5
  otherwise; the message is \<open>Loop level too deep. Found more than N loops in single
  request\<close> with \<open>N\<close> the cap in decimal; and \<open>ServeHTTP\<close>, which asks \<open>isLoop\<close> about the
  request once the context fields are consumed, answers the error with status 500.
\<close>

theorem C3_loop_depth_check:
  "isLoop r =
     (Scheme (URL r) = ''tyk'',
      if Scheme (URL r) = ''tyk'' \<and>
         ctxLoopLevel r > (if ctxLoopLevelLimit r \<noteq> 0 then ctxLoopLevelLimit r else 5)
      then Some (''Loop level too deep. Found more than '' @
                 fmt_d (if ctxLoopLevelLimit r \<noteq> 0 then ctxLoopLevelLimit r else 5) @
                 '' loops in single request'')
      else None) \<and>
   (isLoop (consumedContext r) = (True, Some err) \<longrightarrow>
      ServeHTTP gw spec r = HandleError (consumedContext r) err 500)"
proof -
  have "isLoop (consumedContext r) = (True, Some err) \<longrightarrow>
      ServeHTTP gw spec r = HandleError (consumedContext r) err 500"
    by (simp add: ServeHTTP_consumed StatusInternalServerError_def)
  then show ?thesis
    by (simp add: isLoop_def Let_def defaultLoopLevelLimit_def)
qed

text \<open>A request with scheme \<open>tyk\<close> at loop level 6, no limit set: the cap is 5.\<close>

theorem C3_loop_depth_check_witness:
  "isLoop deepRequest =
     (True, Some ''Loop level too deep. Found more than 5 loops in single request'') \<and>
   isLoop (consumedContext deepRequest) =
     (True, Some ''Loop level too deep. Found more than 5 loops in single request'') \<and>
   ServeHTTP exampleGateway (exampleSpec ''a'' [] ''/x'') deepRequest =
     HandleError deepRequest ''Loop level too deep. Found more than 5 loops in single request'' 500"
proof -
  have f: "Scheme (URL deepRequest) = ''tyk''" "ctxLoopLevel deepRequest = 6"
    "ctxLoopLevelLimit deepRequest = 0"
    by (simp_all add: deepRequest_def exampleRequest_def)
  have d: "fmt_d 5 = ''5''" by (simp add: fmt_d_def)
  show ?thesis
    using C3_loop_depth_check[of deepRequest "''Loop level too deep. Found more than 5 loops in single request''"
             exampleGateway "exampleSpec ''a'' [] ''/x''"]
    by (simp add: f d deep_consumed)
qed

text \<open>
  C4, amended. Whatever order \<open>sortSpecsByListenPath\<close> leaves (any order \<open>sort.Slice\<close> may
  produce for the comparison), it is a rearrangement of the input in which every
  descriptor with a domain precedes every descriptor without one and, within each of the
  two groups, the effective listen-path length does not increase. The effective length of
  every path is the count of \<open>/\<close> plus the sum of the lengths of the segments that are not
  a pair of braces around a content that is not empty. Stability is not part of it.
\<close>

theorem C4_sort_order:
  assumes "sortSpecsByListenPath specs specs'"
  shows "mset specs' = mset specs \<and>
         (\<forall>i j. i < j \<and> j < length specs' \<longrightarrow>
            (Domain (specs' ! i) = [] \<longrightarrow> Domain (specs' ! j) = []) \<and>
            ((Domain (specs' ! i) = []) = (Domain (specs' ! j) = []) \<longrightarrow>
               listenPathLength (ListenPath (specs' ! j)) \<le> listenPathLength (ListenPath (specs' ! i)))) \<and>
         (\<forall>p. listenPathLength p = effectiveLength p) \<and>
         (\<forall>seg. paramSegment seg = (\<exists>content. content \<noteq> [] \<and> seg = ''{'' @ content @ ''}''))"
proof -
  from assms have "mset specs' = mset specs"
    by (simp add: sortSpecsByListenPath_def sortSlice_def)
  then show ?thesis
    using sorted_order[OF assms] listenPathLength_effective paramSegment_iff by blast
qed

text \<open>
  C4 as stated (the sort is stable) fails: for the thirteen descriptors, an order the
  contract of \<open>sort.Slice\<close> admits has the twelve descriptors at \<open>/a\<close> out of their order.
\<close>

theorem C4_sort_not_stable_counterexample:
  "sortSpecsByListenPath thirteenSpecs thirteenSorted \<and>
   \<not> stableSort specLess thirteenSpecs thirteenSorted"
  using thirteen_sorted thirteen_unstable by simp

text \<open>The order of the thirteen descriptors, and the effective length of \<open>/users/{id}/x\<close>.\<close>

theorem C4_sort_order_witness:
  "sortSpecsByListenPath thirteenSpecs thirteenSorted \<and>
   mset thirteenSorted = mset thirteenSpecs \<and>
   (0::nat) < 1 \<and> 1 < length thirteenSorted \<and>
   Domain (thirteenSorted ! 0) = [] \<and> Domain (thirteenSorted ! 1) = [] \<and>
   listenPathLength (ListenPath (thirteenSorted ! 1)) \<le> listenPathLength (ListenPath (thirteenSorted ! 0)) \<and>
   effectiveLength ''/users/{id}/x'' = 9"
proof -
  have l: "1 < length thirteenSorted" by (simp add: thirteenSorted_def)
  have d: "Domain (thirteenSorted ! 0) = []" "Domain (thirteenSorted ! 1) = []"
    by (simp_all add: thirteenSorted_def)
  from C4_sort_order[OF thirteen_sorted]
  have m: "mset thirteenSorted = mset thirteenSpecs"
    and o: "\<forall>i j. i < j \<and> j < length thirteenSorted \<longrightarrow>
            (Domain (thirteenSorted ! i) = [] \<longrightarrow> Domain (thirteenSorted ! j) = []) \<and>
            ((Domain (thirteenSorted ! i) = []) = (Domain (thirteenSorted ! j) = []) \<longrightarrow>
               listenPathLength (ListenPath (thirteenSorted ! j)) \<le> listenPathLength (ListenPath (thirteenSorted ! i)))"
    and e: "\<forall>p. listenPathLength p = effectiveLength p"
    by blast+
  from o l d have "listenPathLength (ListenPath (thirteenSorted ! 1)) \<le> listenPathLength (ListenPath (thirteenSorted ! 0))"
    by (metis zero_less_one)
  moreover from e have "effectiveLength ''/users/{id}/x'' = 9" using lpl_param by metis
  ultimately show ?thesis using thirteen_sorted m l d by simp
qed

text \<open>
  C5, amended. With the collision map finite, \<open>processSpec\<close> returns a chain object; if
  its \<open>Open\<close> is true its \<open>RateLimitChain\<close> is nil; for a descriptor the validator rejects,
  \<open>Open\<close> is false and \<open>RateLimitChain\<close> is nil, keyless or not; for a descriptor that
  passes the validator, \<open>Open\<close> is the keyless flag, and when the descriptor is not keyless
  \<open>RateLimitChain\<close> is a chain that ends in \<open>userRatesCheck\<close>.
\<close>

theorem C5_rate_limit_side_chain:
  assumes "finite (dom apisByListen)"
  shows "\<exists>spec' chain.
     processSpec gw quotaKey spec apisByListen = Some (spec', chain) \<and>
     (Open chain \<longrightarrow> RateLimitChain chain = None) \<and>
     (fst (skipSpecBecauseInvalid gw spec) \<longrightarrow> \<not> Open chain \<and> RateLimitChain chain = None) \<and>
     (\<not> fst (skipSpecBecauseInvalid gw spec) \<longrightarrow>
        Open chain = UseKeylessAccess spec \<and>
        (\<not> UseKeylessAccess spec \<longrightarrow> (\<exists>ms. RateLimitChain chain = Some (Chain ms userRatesCheck))))"
proof (cases "fst (skipSpecBecauseInvalid gw spec)")
  case True
  from processSpec_invalid[OF this, of quotaKey apisByListen] obtain spec'
    where "processSpec gw quotaKey spec apisByListen =
           Some (spec', \<lparr>ThisHandler = None, RateLimitChain = None, Open = False, Skip = True\<rparr>)"
    by blast
  with True show ?thesis by simp
next
  case False
  define c where "c = (if Internal spec
                 then \<lparr>ThisHandler = None, RateLimitChain = None, Open = False, Skip = True\<rparr>
                 else \<lparr>ThisHandler = None, RateLimitChain = None, Open = False, Skip = False\<rparr>)"
  have c: "Open c = False" "RateLimitChain c = None" by (simp_all add: c_def)
  from processSpec_valid[OF False assms, of quotaKey] obtain spec4
    where k: "UseKeylessAccess spec4 = UseKeylessAccess spec"
      and r: "processSpec gw quotaKey spec apisByListen = Some (processSpec_chain gw quotaKey spec4 c)"
    unfolding c_def by blast
  let ?res = "processSpec_chain gw quotaKey spec4 c"
  have "processSpec gw quotaKey spec apisByListen = Some (fst ?res, snd ?res)" using r by simp
  moreover have "Open (snd ?res) = UseKeylessAccess spec" using k c by (simp add: chain_fields)
  moreover have "UseKeylessAccess spec \<longrightarrow> RateLimitChain (snd ?res) = None"
    using k c by (simp add: chain_fields)
  moreover have "\<not> UseKeylessAccess spec \<longrightarrow> (\<exists>ms. RateLimitChain (snd ?res) = Some (Chain ms userRatesCheck))"
    using k by (simp add: chain_fields)
  ultimately show ?thesis using False by blast
qed

text \<open>
  C5 as stated (a side-chain for every descriptor that is not keyless) fails for a
  descriptor with an empty listen path: \<open>processSpec\<close> returns before any chain is built.
\<close>

theorem C5_no_side_chain_counterexample:
  "\<not> UseKeylessAccess (exampleSpec ''a'' [] []) \<and>
   processSpec exampleGateway [] (exampleSpec ''a'' [] []) Map.empty =
     Some (exampleSpec ''a'' [] [],
           \<lparr>ThisHandler = None, RateLimitChain = None, Open = False, Skip = True\<rparr>)"
  by (simp add: processSpec_def processSpec_tls_def skipSpecBecauseInvalid_def httpFamily_def
        exampleSpec_def Let_def)

text \<open>A descriptor with token authentication at \<open>/x\<close>, no collision.\<close>

theorem C5_rate_limit_side_chain_witness:
  "finite (dom (Map.empty :: listenCount)) \<and>
   \<not> fst (skipSpecBecauseInvalid exampleGateway (exampleSpec ''a'' [] ''/x'')) \<and>
   \<not> UseKeylessAccess (exampleSpec ''a'' [] ''/x'') \<and>
   (\<exists>spec' chain ms.
      processSpec exampleGateway [] (exampleSpec ''a'' [] ''/x'') Map.empty = Some (spec', chain) \<and>
      \<not> Open chain \<and> RateLimitChain chain = Some (Chain ms userRatesCheck)) \<and>
   map_option (RateLimitChain \<circ> snd)
     (processSpec exampleGateway [] (exampleSpec ''a'' [] ''/x'') Map.empty) =
   Some (Some (Chain
     [Std ''IPWhiteListMiddleware'', Std ''IPBlackListMiddleware'', Std ''OrganizationMonitor'',
      Std ''VersionCheck'', Std ''Oauth2KeyExists'', Std ''ExternalOAuthMiddleware'',
      Std ''BasicAuthKeyIsValid'', Std ''HTTPSignatureValidationMiddleware'',
      Std ''JWTMiddleware'', Std ''OpenIDMW'', Std ''AuthKey'', Std ''KeyExpired'',
      Std ''AccessRightsCheck''] userRatesCheck))"
proof -
  have fin: "finite (dom (Map.empty :: listenCount))" by simp
  have k: "\<not> UseKeylessAccess (exampleSpec ''a'' [] ''/x'')" by (simp add: exampleSpec_def)
  from C5_rate_limit_side_chain[OF fin, of exampleGateway "[]" "exampleSpec ''a'' [] ''/x''"]
    example_valid k
  have "\<exists>spec' chain ms.
      processSpec exampleGateway [] (exampleSpec ''a'' [] ''/x'') Map.empty = Some (spec', chain) \<and>
      \<not> Open chain \<and> RateLimitChain chain = Some (Chain ms userRatesCheck)"
    by blast
  with fin example_valid k example_side_chain show ?thesis by blast
qed

text \<open>
  C6. Strict-prefix gate. When the gate is disabled, or the prefix ends with \<open>/\<close>, or the
  prefix contains both \<open>{\<close> and \<open>}\<close>, \<open>explicitRouteSubpaths\<close> returns the handler as it is.
  Otherwise it returns the wrapper, and the wrapper hands the request to the inner handler
  exactly when the request path is the prefix or begins with the prefix and \<open>/\<close>; in every
  other case it writes status 404 with the text \<open>Not Found\<close>.
\<close>

theorem C6_strict_prefix_gate:
  "(\<not> enabled \<or> (\<exists>pre. prefix = pre @ ''/'') \<or> (CHR ''{'' \<in> set prefix \<and> CHR ''}'' \<in> set prefix)
      \<longrightarrow> explicitRouteSubpaths prefix h enabled = h) \<and>
   (enabled \<and> \<not> (\<exists>pre. prefix = pre @ ''/'') \<and> \<not> (CHR ''{'' \<in> set prefix \<and> CHR ''}'' \<in> set prefix)
      \<longrightarrow> explicitRouteSubpaths prefix h enabled = Some (ExplicitRouteHandler prefix h) \<and>
          explicitRouteHandler_ServeHTTP prefix h r =
            (if Path (URL r) = prefix \<or> (\<exists>rest. Path (URL r) = prefix @ ''/'' @ rest)
             then Forward h r
             else WriteResponse 404 ''Not Found''))"
  using gate_bypass[of enabled prefix h] gate_active[of enabled prefix h] gate_serve[of prefix h r]
  by blast

text \<open>The prefixes \<open>/foo/\<close> and \<open>/foo\<close>, strict routes on; the paths \<open>/foobar\<close> and \<open>/foo/x\<close>.\<close>

theorem C6_strict_prefix_gate_witness:
  "explicitRouteSubpaths ''/foo/'' (Some (Chain [] DummyProxyHandler)) True =
     Some (Chain [] DummyProxyHandler) \<and>
   explicitRouteSubpaths ''/foo'' (Some (Chain [] DummyProxyHandler)) True =
     Some (ExplicitRouteHandler ''/foo'' (Some (Chain [] DummyProxyHandler))) \<and>
   explicitRouteHandler_ServeHTTP ''/foo'' (Some (Chain [] DummyProxyHandler))
     (exampleRequest ''http'' ''/foobar'') = WriteResponse 404 ''Not Found'' \<and>
   explicitRouteHandler_ServeHTTP ''/foo'' (Some (Chain [] DummyProxyHandler))
     (exampleRequest ''http'' ''/foo/x'') =
       Forward (Some (Chain [] DummyProxyHandler)) (exampleRequest ''http'' ''/foo/x'')"
proof -
  have a: "\<exists>pre. ''/foo/'' = pre @ ''/''" by (rule exI[of _ "''/foo''"]) simp
  have p1: "Path (URL (exampleRequest ''http'' ''/foobar'')) = ''/foobar''"
    and p2: "Path (URL (exampleRequest ''http'' ''/foo/x'')) = ''/foo/x''"
    by (simp_all add: exampleRequest_def)
  have under: "\<exists>rest. ''/foo/x'' = ''/foo'' @ ''/'' @ rest" by simp
  show ?thesis
    using C6_strict_prefix_gate[of True "''/foo/''" "Some (Chain [] DummyProxyHandler)"] a
      C6_strict_prefix_gate[of True "''/foo''" "Some (Chain [] DummyProxyHandler)" "exampleRequest ''http'' ''/foobar''"]
      C6_strict_prefix_gate[of True "''/foo''" "Some (Chain [] DummyProxyHandler)" "exampleRequest ''http'' ''/foo/x''"]
      no_trailing_slash foobar_not_under under
    by (simp add: p1 p2)
qed

text \<open>
  C7, amended. For a descriptor whose protocol is empty, \<open>http\<close> or \<open>https\<close>,
  \<open>skipSpecBecauseInvalid\<close> returns true exactly when the listen path is empty, or
  contains a space (the byte 0x20), or the target URL, resolved through the key-value
  store, fails to parse. Whenever it returns true, \<open>processSpec\<close> returns a chain object
  with \<open>Skip\<close> true and nothing else set, and \<open>loadHTTPService\<close>, when it hands the
  descriptor to \<open>processSpec\<close>, registers no route.
\<close>

theorem C7_validator:
  assumes "Protocol spec = [] \<or> Protocol spec = ''http'' \<or> Protocol spec = ''https''"
  shows "fst (skipSpecBecauseInvalid gw spec) =
           (ListenPath spec = [] \<or> CHR '' '' \<in> set (ListenPath spec) \<or>
            urlParse gw (case kvStore gw (TargetURL spec) of Some v \<Rightarrow> v | None \<Rightarrow> TargetURL spec) = None) \<and>
         (fst (skipSpecBecauseInvalid gw spec) \<longrightarrow>
            (\<exists>spec'. processSpec gw quotaKey spec apisByListen =
               Some (spec', \<lparr>ThisHandler = None, RateLimitChain = None, Open = False, Skip = True\<rparr>)) \<and>
            (ValidatePath gw (ListenPath spec) \<and> shouldReloadSpec gw (getApiSpec gw (APIID spec)) spec \<longrightarrow>
               (\<exists>spec'. loadHTTPService gw spec apisByListen =
                  Some (Inr (spec', \<lparr>ThisHandler = None, RateLimitChain = None, Open = False, Skip = True\<rparr>, [])))))"
proof -
  from assms have "httpFamily (Protocol spec)" by (simp add: httpFamily_def)
  then have "fst (skipSpecBecauseInvalid gw spec) =
           (ListenPath spec = [] \<or> CHR '' '' \<in> set (ListenPath spec) \<or>
            urlParse gw (case kvStore gw (TargetURL spec) of Some v \<Rightarrow> v | None \<Rightarrow> TargetURL spec) = None)"
    by (simp add: skip_fst)
  then show ?thesis
    using processSpec_invalid[of gw spec quotaKey apisByListen] loadHTTPService_invalid[of gw spec apisByListen]
    by blast
qed

text \<open>
  C7 as stated (a listen path that contains whitespace is rejected) fails for a listen
  path with a tab: the validator looks for the space only.
\<close>

theorem C7_tab_not_rejected_counterexample:
  "Protocol (exampleSpec ''a'' [] tabPath) = ''http'' \<and>
   containsWhitespace (ListenPath (exampleSpec ''a'' [] tabPath)) \<and>
   \<not> fst (skipSpecBecauseInvalid exampleGateway (exampleSpec ''a'' [] tabPath))"
  by (simp add: skip_fst exampleGateway_def exampleSpec_def tabPath_def containsWhitespace_def
        isWhitespace_def)

text \<open>A descriptor at \<open>/a b\<close>.\<close>

theorem C7_validator_witness:
  "Protocol (exampleSpec ''a'' [] ''/a b'') = ''http'' \<and>
   fst (skipSpecBecauseInvalid exampleGateway (exampleSpec ''a'' [] ''/a b'')) \<and>
   ValidatePath exampleGateway (ListenPath (exampleSpec ''a'' [] ''/a b'')) \<and>
   shouldReloadSpec exampleGateway (getApiSpec exampleGateway (APIID (exampleSpec ''a'' [] ''/a b'')))
     (exampleSpec ''a'' [] ''/a b'') \<and>
   (\<exists>spec'. processSpec exampleGateway [] (exampleSpec ''a'' [] ''/a b'') Map.empty =
      Some (spec', \<lparr>ThisHandler = None, RateLimitChain = None, Open = False, Skip = True\<rparr>)) \<and>
   (\<exists>spec'. loadHTTPService exampleGateway (exampleSpec ''a'' [] ''/a b'') Map.empty =
      Some (Inr (spec', \<lparr>ThisHandler = None, RateLimitChain = None, Open = False, Skip = True\<rparr>, [])))"
proof -
  have p: "Protocol (exampleSpec ''a'' [] ''/a b'') = ''http''" by (simp add: exampleSpec_def)
  then have p': "Protocol (exampleSpec ''a'' [] ''/a b'') = [] \<or> Protocol (exampleSpec ''a'' [] ''/a b'') = ''http'' \<or>
                 Protocol (exampleSpec ''a'' [] ''/a b'') = ''https''" by simp
  have s: "fst (skipSpecBecauseInvalid exampleGateway (exampleSpec ''a'' [] ''/a b''))"
    by (simp add: skip_fst httpFamily_def p)
  have v: "ValidatePath exampleGateway (ListenPath (exampleSpec ''a'' [] ''/a b''))"
    "shouldReloadSpec exampleGateway (getApiSpec exampleGateway (APIID (exampleSpec ''a'' [] ''/a b'')))
       (exampleSpec ''a'' [] ''/a b'')"
    by (simp_all add: exampleGateway_def)
  from C7_validator[OF p', of exampleGateway "[]" Map.empty] s v p show ?thesis by blast
qed

text \<open>
  C8. Termination of suffixing; an unresolvable collision after suffixing cannot occur.
  The loop does return for every finite collision map (lemma \<open>suffixing_loop_returns\<close>),
  but it can leave a collision. The test \<^verbatim>\<open>apisByListen[hash] < 2\<close> is read as \<open>not a
  duplicate\<close>; that is so for the path the descriptor came with, which the map counts for
  the descriptor itself, and not for a suffixed path, which the map counts for others
  only. With \<open>a\<close> and \<open>b\<close> at \<open>/x\<close> and \<open>c\<close> at \<open>/x-b\<close>, none loaded before: \<open>b\<close> is moved to
  \<open>/x-b\<close>, whose count is 1, and the loop leaves; \<open>c\<close> keeps \<open>/x-b\<close>. \<open>processSpec\<close> returns
  both descriptors at \<open>/x-b\<close>, neither skipped, on the same domain.
\<close>

theorem C8_suffix_lands_on_taken_path:
  "processSpec_listenPath exampleGateway (countApisByListenHash collidingSpecs) False
     (exampleSpec ''b'' [] ''/x'') = Some (exampleSpec ''b'' [] ''/x-b'', True) \<and>
   processSpec_listenPath exampleGateway (countApisByListenHash collidingSpecs) False
     (exampleSpec ''c'' [] ''/x-b'') = Some (exampleSpec ''c'' [] ''/x-b'', False) \<and>
   map_option (\<lambda>(spec', chain). (GetAPIDomain spec', ListenPath spec', Skip chain))
     (processSpec exampleGateway [] (exampleSpec ''b'' [] ''/x'')
        (countApisByListenHash collidingSpecs)) = Some ([], ''/x-b'', False) \<and>
   map_option (\<lambda>(spec', chain). (GetAPIDomain spec', ListenPath spec', Skip chain))
     (processSpec exampleGateway [] (exampleSpec ''c'' [] ''/x-b'')
        (countApisByListenHash collidingSpecs)) = Some ([], ''/x-b'', False)"
proof -
  let ?m = "countApisByListenHash collidingSpecs"
  have b: "processSpec_listenPath exampleGateway ?m False (exampleSpec ''b'' [] ''/x'') =
             Some (exampleSpec ''b'' [] ''/x-b'', True)"
    by (simp add: processSpec_listenPath.simps colliding_counts generateDomainPath_def
          GetAPIDomain_def exampleGateway_def exampleSpec_def)
  have c: "processSpec_listenPath exampleGateway ?m False (exampleSpec ''c'' [] ''/x-b'') =
             Some (exampleSpec ''c'' [] ''/x-b'', False)"
    by (simp add: processSpec_listenPath.simps colliding_counts generateDomainPath_def
          GetAPIDomain_def exampleGateway_def exampleSpec_def)
  have pre: "\<And>i p. skipSpecBecauseInvalid exampleGateway (processSpec_tls (exampleSpec i [] p)) =
               (p = [] \<or> containsSpace p, exampleSpec i [] p)"
    by (simp add: skipSpecBecauseInvalid_def processSpec_tls_def httpFamily_def
          exampleGateway_def exampleSpec_def Let_def)
  have tags: "\<And>i p. TagHeaders (processSpec_tls (exampleSpec i [] p)) = []"
    by (simp add: tls_shape exampleSpec_def)
  have int: "\<And>i p. \<not> Internal (exampleSpec i [] p)"
    by (simp add: exampleSpec_def)
  have pb: "processSpec exampleGateway [] (exampleSpec ''b'' [] ''/x'') ?m =
              Some (processSpec_chain exampleGateway [] (exampleSpec ''b'' [] ''/x-b'')
                     \<lparr>ThisHandler = None, RateLimitChain = None, Open = False, Skip = False\<rparr>)"
    using b by (simp add: processSpec_def Let_def pre tags int containsSpace_def)
  have pc: "processSpec exampleGateway [] (exampleSpec ''c'' [] ''/x-b'') ?m =
              Some (processSpec_chain exampleGateway [] (exampleSpec ''c'' [] ''/x-b'')
                     \<lparr>ThisHandler = None, RateLimitChain = None, Open = False, Skip = False\<rparr>)"
    using c by (simp add: processSpec_def Let_def pre tags int containsSpace_def)
  have out: "\<And>s c. (\<lambda>(spec', chain). (GetAPIDomain spec', ListenPath spec', Skip chain))
                 (processSpec_chain exampleGateway [] s c) = (Domain s, ListenPath s, Skip c)"
    by (simp add: split_beta chain_fields GetAPIDomain_def)
  show ?thesis
    by (simp only: b c pb pc option.map out) simp
qed

text \<open>
  C9. Canonical looping name. The claim is that \<open>APILoopingName\<close> returns for every name.
  For a name whose first character is \<open>#\<close> it does not: \<open>strings.Index\<close> is 0 and the slice
  expression \<open>name[:i-1]\<close> has the bound -1, a run-time panic.
\<close>

theorem C9_looping_name_panics:
  "APILoopingName gw (CHR ''#'' # rest) = Inl SliceBoundsOutOfRange"
  by (simp add: APILoopingName_def trimCategories_def sliceTo_def)

text \<open>
  C10. Whatever the scheme of the request URL, \<open>ServeHTTP\<close> first consumes the two context
  fields (the URL is replaced by the rewrite target when one is set, the method by the
  transformed method when one is set, and both fields are cleared), and only then asks
  \<open>isLoop\<close>: each branch works on that request. So a request that is no loop, for an API
  whose target is not internal, reaches the success handler with both fields consumed.
\<close>

theorem C10_context_consumed_first:
  "ServeHTTP gw spec r =
     (case isLoop (consumedContext r) of
        (True, Some err) \<Rightarrow> HandleError (consumedContext r) err StatusInternalServerError
      | (True, None) \<Rightarrow> ServeHTTP_loop gw spec (consumedContext r)
      | (False, err) \<Rightarrow> ServeHTTP_target gw spec (consumedContext r)) \<and>
   URL (consumedContext r) = (case ctxURLRewriteTarget r of Some u \<Rightarrow> u | None \<Rightarrow> URL r) \<and>
   Method (consumedContext r) =
     (if ctxTransformRequestMethod r \<noteq> [] then ctxTransformRequestMethod r else Method r) \<and>
   ctxURLRewriteTarget (consumedContext r) = None \<and>
   ctxTransformRequestMethod (consumedContext r) = [] \<and>
   (Scheme (URL (consumedContext r)) \<noteq> ''tyk'' \<and> target spec = Some t \<and> Scheme t \<noteq> ''tyk'' \<longrightarrow>
      ServeHTTP gw spec r = SuccessHandlerServeHTTP (consumedContext r))"
proof -
  have "Scheme (URL (consumedContext r)) \<noteq> ''tyk'' \<and> target spec = Some t \<and> Scheme t \<noteq> ''tyk'' \<longrightarrow>
      ServeHTTP gw spec r = SuccessHandlerServeHTTP (consumedContext r)"
    by (simp add: ServeHTTP_consumed isLoop_def ServeHTTP_target_def)
  moreover have "URL (consumedContext r) = (case ctxURLRewriteTarget r of Some u \<Rightarrow> u | None \<Rightarrow> URL r)"
    "Method (consumedContext r) =
       (if ctxTransformRequestMethod r \<noteq> [] then ctxTransformRequestMethod r else Method r)"
    "ctxURLRewriteTarget (consumedContext r) = None"
    "ctxTransformRequestMethod (consumedContext r) = []"
    by (simp_all add: consumedContext_def)
  ultimately show ?thesis
    using ServeHTTP_consumed[of gw spec r] by blast
qed

text \<open>A request with scheme \<open>http\<close>, a rewrite target at \<open>/y\<close> and the method \<open>POST\<close> left for it.\<close>

theorem C10_context_consumed_first_witness:
  "Scheme (URL (consumedContext rewrittenRequest)) \<noteq> ''tyk'' \<and>
   target ((exampleSpec ''a'' [] ''/x'')\<lparr>target := Some exampleURL\<rparr>) = Some exampleURL \<and>
   Scheme exampleURL \<noteq> ''tyk'' \<and>
   ServeHTTP exampleGateway ((exampleSpec ''a'' [] ''/x'')\<lparr>target := Some exampleURL\<rparr>)
     rewrittenRequest = SuccessHandlerServeHTTP rewrittenRequest' \<and>
   Path (URL rewrittenRequest') = ''/y'' \<and> Method rewrittenRequest' = ''POST'' \<and>
   ctxURLRewriteTarget rewrittenRequest' = None \<and> ctxTransformRequestMethod rewrittenRequest' = []"
proof -
  have a: "Scheme (URL (consumedContext rewrittenRequest)) \<noteq> ''tyk''"
    by (simp add: rewritten_consumed rewrittenRequest'_def exampleURL_def)
  have b: "target ((exampleSpec ''a'' [] ''/x'')\<lparr>target := Some exampleURL\<rparr>) = Some exampleURL"
    by simp
  have c: "Scheme exampleURL \<noteq> ''tyk''" by (simp add: exampleURL_def)
  have d: "Path (URL rewrittenRequest') = ''/y''" "Method rewrittenRequest' = ''POST''"
    "ctxURLRewriteTarget rewrittenRequest' = None" "ctxTransformRequestMethod rewrittenRequest' = []"
    by (simp_all add: rewrittenRequest'_def exampleRequest_def)
  from C10_context_consumed_first[of exampleGateway "(exampleSpec ''a'' [] ''/x'')\<lparr>target := Some exampleURL\<rparr>"
              rewrittenRequest exampleURL]
  have "Scheme (URL (consumedContext rewrittenRequest)) \<noteq> ''tyk'' \<and>
        target ((exampleSpec ''a'' [] ''/x'')\<lparr>target := Some exampleURL\<rparr>) = Some exampleURL \<and>
        Scheme exampleURL \<noteq> ''tyk'' \<longrightarrow>
        ServeHTTP exampleGateway ((exampleSpec ''a'' [] ''/x'')\<lparr>target := Some exampleURL\<rparr>)
          rewrittenRequest = SuccessHandlerServeHTTP (consumedContext rewrittenRequest)"
    by blast
  with a b c have "ServeHTTP exampleGateway ((exampleSpec ''a'' [] ''/x'')\<lparr>target := Some exampleURL\<rparr>)
          rewrittenRequest = SuccessHandlerServeHTTP (consumedContext rewrittenRequest)"
    by blast
  then have "ServeHTTP exampleGateway ((exampleSpec ''a'' [] ''/x'')\<lparr>target := Some exampleURL\<rparr>)
          rewrittenRequest = SuccessHandlerServeHTTP rewrittenRequest'"
    by (simp only: rewritten_consumed)
  with a b c d show ?thesis by blast
qed

end
